theory Spec2Isabelle
  imports
    Complex_Main
    "HOL-Library.AList"
    "HOL-Library.Char_ord"
    "HOL-Library.List_Lexorder"
    "HOL-Library.Multiset"
    "HOL-Library.Product_Lexorder"
begin

section \<open>Strings\<close>

text \<open>
  Python strings are modelled as \<^typ>\<open>string\<close>: a character is one byte, so the model
  covers ASCII text exactly and sees any other code point as its UTF-8 bytes.
  \<^verbatim>\<open>str.strip()\<close> and the regular-expression class \<^verbatim>\<open>\s\<close> remove the ASCII
  white space of Python (tab, line feed, vertical tab, form feed, carriage return, the
  separators 0x1C to 0x1F, and blank).
\<close>

definition is_space :: "char \<Rightarrow> bool" where
  "is_space c = (let n = (of_char c :: nat) in (9 \<le> n \<and> n \<le> 13) \<or> (28 \<le> n \<and> n \<le> 32))"

definition py_strip :: "string \<Rightarrow> string" where
  "py_strip s = rev (dropWhile is_space (rev (dropWhile is_space s)))"

section \<open>Allocation engine\<close>

text \<open>
  Quantities are Python floats in the source. They are modelled as real numbers:
  rounding is not part of the model, which is exact as long as the quantities are
  integers below \<open>2^53\<close> (the needed quantity of a demand record is always the
  result of \<^verbatim>\<open>round\<close>). A missing value of a stock column (\<^verbatim>\<open>NaN\<close>, replaced
  by \<^verbatim>\<open>fillna(0)\<close>) is \<^term>\<open>None\<close>.
\<close>

record stock_row =
  Article :: string
  QOH :: "real option"
  Allocation :: "real option"
  QCHold_QCI :: "real option"
  QCHold_QCH :: "real option"

definition fillna :: "real \<Rightarrow> real option \<Rightarrow> real" where
  "fillna d v = (case v of None \<Rightarrow> d | Some x \<Rightarrow> x)"

text \<open>The column \<^verbatim>\<open>Avail\<close> that \<^verbatim>\<open>allocate_by_delivery\<close> adds to its copy of the stock.\<close>

definition Avail :: "stock_row \<Rightarrow> real" where
  "Avail s = fillna 0 (QOH s) - fillna 0 (QCHold_QCI s) - fillna 0 (QCHold_QCH s)"

text \<open>
  \<^verbatim>\<open>avail_map = {str(a).strip(): float(v) for a, v in zip(...)}\<close>: the rows are
  entered in order, so a later row of the same article replaces an earlier one.
\<close>

fun avail_map_from :: "(string \<rightharpoonup> real) \<Rightarrow> stock_row list \<Rightarrow> (string \<rightharpoonup> real)" where
  "avail_map_from m [] = m"
| "avail_map_from m (s # ss) = avail_map_from (m(py_strip (Article s) \<mapsto> Avail s)) ss"

definition avail_map :: "stock_row list \<Rightarrow> (string \<rightharpoonup> real)" where
  "avail_map stock = avail_map_from Map.empty stock"

text \<open>
  A demand record. The delivery date is kept as the pipeline has it (type \<^typ>\<open>'d\<close>);
  \<^verbatim>\<open>pd.to_datetime(..., errors="coerce")\<close> is a parameter \<open>to_datetime\<close> of the
  engine, giving a time stamp or \<^term>\<open>None\<close> (\<^verbatim>\<open>NaT\<close>) for a date that is missing or
  does not parse.
\<close>

record 'd demand_row =
  PO_Line :: string
  DeliveryDate :: 'd
  Component :: string
  ComponentArticle :: string
  NeedQty :: real
  QtyPerAssembly :: real
  QtyEA :: real

record 'd alloc_row =
  Demand :: "'d demand_row"
  AvailableStart :: real
  Allocated :: real
  Short :: real
  Status :: string

text \<open>
  \<^verbatim>\<open>sort_values(["DeliveryDate_sort", "PO-Line", "ComponentArticle"], kind="stable")\<close>:
  a stable sort on the three columns in lexicographic order, \<^verbatim>\<open>NaT\<close> after every
  time stamp. The key of a row puts a flag first that is \<^term>\<open>True\<close> exactly for
  \<^verbatim>\<open>NaT\<close>; strings compare as in Python, character by character.
\<close>

type_synonym sort_key = "bool \<times> int \<times> string \<times> string"

definition demand_key :: "('d \<Rightarrow> int option) \<Rightarrow> 'd demand_row \<Rightarrow> sort_key" where
  "demand_key to_datetime d =
     (case to_datetime (DeliveryDate d) of
        None \<Rightarrow> (True, 0, PO_Line d, ComponentArticle d)
      | Some t \<Rightarrow> (False, t, PO_Line d, ComponentArticle d))"

definition sort_values :: "('d \<Rightarrow> int option) \<Rightarrow> 'd demand_row list \<Rightarrow> 'd demand_row list" where
  "sort_values to_datetime ds = sort_key (demand_key to_datetime) ds"

definition status_of :: "real \<Rightarrow> string" where
  "status_of x = (if x \<le> 1 / 10 ^ 9 then ''OK'' else ''SHORT'')"

text \<open>\<^verbatim>\<open>remaining.get(art, 0.0)\<close>: an article without an entry counts as zero.\<close>

definition get0 :: "(string \<rightharpoonup> real) \<Rightarrow> string \<Rightarrow> real" where
  "get0 m a = (case m a of None \<Rightarrow> 0 | Some v \<Rightarrow> v)"

text \<open>
  One pass of the loop over the sorted rows: the state is the dictionary
  \<^verbatim>\<open>remaining\<close>, the result the row with its four new columns.
\<close>

definition alloc_step ::
  "(string \<rightharpoonup> real) \<Rightarrow> 'd demand_row \<Rightarrow> 'd alloc_row \<times> (string \<rightharpoonup> real)" where
  "alloc_step remaining row =
     (let art = py_strip (ComponentArticle row);
          need = NeedQty row;
          start_avail = get0 remaining art;
          alloc = min start_avail need;
          short = max 0 (need - alloc)
      in (\<lparr>Demand = row, AvailableStart = start_avail, Allocated = alloc,
           Short = short, Status = status_of short\<rparr>,
          remaining(art \<mapsto> start_avail - alloc)))"

fun alloc_loop ::
  "(string \<rightharpoonup> real) \<Rightarrow> 'd demand_row list \<Rightarrow> 'd alloc_row list \<times> (string \<rightharpoonup> real)" where
  "alloc_loop remaining [] = ([], remaining)"
| "alloc_loop remaining (row # rows) =
     (let (r, remaining') = alloc_step remaining row;
          (rs, final) = alloc_loop remaining' rows
      in (r # rs, final))"

definition allocate_by_delivery ::
  "('d \<Rightarrow> int option) \<Rightarrow> 'd demand_row list \<Rightarrow> stock_row list \<Rightarrow> 'd alloc_row list" where
  "allocate_by_delivery to_datetime demands stock =
     (if demands = [] then []
      else fst (alloc_loop (avail_map stock) (sort_values to_datetime demands)))"


subsection \<open>Notions used to state the properties of the engine\<close>

text \<open>The article a result row refers to, as the loop reads it.\<close>

definition article_of :: "'d alloc_row \<Rightarrow> string" where
  "article_of r = py_strip (ComponentArticle (Demand r))"

text \<open>The sum of the column \<^verbatim>\<open>Allocated\<close> over the rows of one article.\<close>

definition allocated_to :: "string \<Rightarrow> 'd alloc_row list \<Rightarrow> real" where
  "allocated_to a rs = sum_list (map Allocated (filter (\<lambda>r. article_of r = a) rs))"

text \<open>
  The order of the specification, written out: row \<open>a\<close> may stand before row \<open>b\<close>
  when its delivery date is earlier, a date that does not parse coming after every date
  that does; on equal dates when its PO-line key is smaller; on equal keys when its
  article code is not greater.
\<close>

definition tie_break :: "'d demand_row \<Rightarrow> 'd demand_row \<Rightarrow> bool" where
  "tie_break a b =
     (PO_Line a < PO_Line b \<or>
      (PO_Line a = PO_Line b \<and> ComponentArticle a \<le> ComponentArticle b))"

definition spec_precedes :: "('d \<Rightarrow> int option) \<Rightarrow> 'd demand_row \<Rightarrow> 'd demand_row \<Rightarrow> bool" where
  "spec_precedes to_datetime a b =
     (case (to_datetime (DeliveryDate a), to_datetime (DeliveryDate b)) of
        (Some x, Some y) \<Rightarrow> x < y \<or> (x = y \<and> tie_break a b)
      | (Some x, None) \<Rightarrow> True
      | (None, Some y) \<Rightarrow> False
      | (None, None) \<Rightarrow> tie_break a b)"

text \<open>
  The available quantity as the specification words it: on hand, minus allocated
  elsewhere, minus the two quality holds.
\<close>

definition spec_available :: "stock_row \<Rightarrow> real" where
  "spec_available s =
     fillna 0 (QOH s) - fillna 0 (Allocation s) - fillna 0 (QCHold_QCI s) - fillna 0 (QCHold_QCH s)"

subsection \<open>The worked example of the specification\<close>

text \<open>
  Stock \<open>{A: 100}\<close>; line 1 needs 60 of \<open>A\<close> and is due on January 1, line 2 needs 60
  and is due on January 2.
\<close>

definition ex_to_datetime :: "string \<Rightarrow> int option" where
  "ex_to_datetime = map_of [(''2026-01-01'', 1), (''2026-01-02'', 2)]"

definition ex_stock :: "stock_row list" where
  "ex_stock = [\<lparr>Article = ''A'', QOH = Some 100, Allocation = Some 0,
                QCHold_QCI = Some 0, QCHold_QCH = Some 0\<rparr>]"

definition ex_line1 :: "string demand_row" where
  "ex_line1 = \<lparr>PO_Line = ''line1'', DeliveryDate = ''2026-01-01'', Component = ''LID'',
                ComponentArticle = ''A'', NeedQty = 60, QtyPerAssembly = 1, QtyEA = 60\<rparr>"

definition ex_line2 :: "string demand_row" where
  "ex_line2 = \<lparr>PO_Line = ''line2'', DeliveryDate = ''2026-01-02'', Component = ''LID'',
                ComponentArticle = ''A'', NeedQty = 60, QtyPerAssembly = 1, QtyEA = 60\<rparr>"

text \<open>A stock row with a quantity allocated elsewhere, and one with more on hold than on hand.\<close>

definition ex_stock_allocated :: stock_row where
  "ex_stock_allocated = \<lparr>Article = ''A'', QOH = Some 100, Allocation = Some 30,
                          QCHold_QCI = Some 0, QCHold_QCH = Some 0\<rparr>"

definition ex_stock_negative :: stock_row where
  "ex_stock_negative = \<lparr>Article = ''A'', QOH = Some 10, Allocation = Some 0,
                         QCHold_QCI = Some 15, QCHold_QCH = Some 0\<rparr>"

text \<open>A demand for another article, and the rows expected for the stock that is negative.\<close>

definition ex_line_other :: "string demand_row" where
  "ex_line_other = \<lparr>PO_Line = ''line3'', DeliveryDate = ''2026-01-01'', Component = ''LID'',
                     ComponentArticle = ''B'', NeedQty = 10, QtyPerAssembly = 1, QtyEA = 10\<rparr>"

definition ex_rows :: "string alloc_row list" where
  "ex_rows =
     [\<lparr>Demand = ex_line1, AvailableStart = 100, Allocated = 60, Short = 0, Status = ''OK''\<rparr>,
      \<lparr>Demand = ex_line2, AvailableStart = 40, Allocated = 40, Short = 20, Status = ''SHORT''\<rparr>]"

definition ex_rows_negative :: "string alloc_row list" where
  "ex_rows_negative =
     [\<lparr>Demand = ex_line1, AvailableStart = - 5, Allocated = - 5, Short = 65, Status = ''SHORT''\<rparr>,
      \<lparr>Demand = ex_line2, AvailableStart = 0, Allocated = 0, Short = 60, Status = ''SHORT''\<rparr>]"

section \<open>Flags and the manual override\<close>

text \<open>
  The flags are single characters outside ASCII; each is written as its UTF-8 bytes:
  the purple square U+1F7EA, the red square U+1F7E5 and the green square U+1F7E9.
\<close>

definition flag_purple :: string where
  "flag_purple = [CHR 0xF0, CHR 0x9F, CHR 0x9F, CHR 0xAA]"

definition flag_red :: string where
  "flag_red = [CHR 0xF0, CHR 0x9F, CHR 0x9F, CHR 0xA5]"

definition flag_green :: string where
  "flag_green = [CHR 0xF0, CHR 0x9F, CHR 0x9F, CHR 0xA9]"

text \<open>The columns of the view \<^verbatim>\<open>df_show\<close> that the flag and the override read or write.\<close>

record view_row =
  vPO_Line :: string
  vHasComponents :: bool
  vStatus :: string
  vShort_Detail :: string
  vFlag :: string

text \<open>
  A Python dictionary with string keys is a list of pairs with distinct keys, in the
  order of insertion; \<^verbatim>\<open>d.get(k, False)\<close> is \<open>dict_get\<close> and \<^verbatim>\<open>d[k] = v\<close> is
  \<^const>\<open>AList.update\<close>.
\<close>

type_synonym 'v dict = "(string \<times> 'v) list"

definition dict_get :: "bool dict \<Rightarrow> string \<Rightarrow> bool" where
  "dict_get d k = (case map_of d k of None \<Rightarrow> False | Some v \<Rightarrow> v)"

subsection \<open>Status and flag of a PO line (the view computation)\<close>

text \<open>\<^verbatim>\<open>short_by_po\<close>: SHORT for a PO line with a SHORT row, OK for any other line with rows.\<close>

definition short_by_po :: "'d alloc_row list \<Rightarrow> string \<rightharpoonup> string" where
  "short_by_po alloc po =
     (let g = filter (\<lambda>r. PO_Line (Demand r) = po) alloc
      in if g = [] then None
         else Some (if \<exists>r \<in> set g. Status r = ''SHORT'' then ''SHORT'' else ''OK''))"

definition low_avail_pos :: "'d alloc_row list \<Rightarrow> string set" where
  "low_avail_pos alloc = (\<lambda>r. PO_Line (Demand r)) ` set (filter (\<lambda>r. AvailableStart r < 100) alloc)"

definition supported_pos :: "'d alloc_row list \<Rightarrow> string set" where
  "supported_pos alloc = (\<lambda>r. PO_Line (Demand r)) ` set alloc"

definition short_by_po_qty :: "'d alloc_row list \<Rightarrow> string \<Rightarrow> real" where
  "short_by_po_qty alloc po = sum_list (map Short (filter (\<lambda>r. PO_Line (Demand r) = po) alloc))"

definition small_short_pos :: "'d alloc_row list \<Rightarrow> string set" where
  "small_short_pos alloc =
     {po \<in> supported_pos alloc. 0 < short_by_po_qty alloc po \<and> short_by_po_qty alloc po \<le> 100}"

definition flag_for_row :: "string set \<Rightarrow> string set \<Rightarrow> view_row \<Rightarrow> string" where
  "flag_for_row small_short low_avail row =
     (let po_key = py_strip (vPO_Line row)
      in if po_key \<in> small_short then flag_purple
         else if vStatus row = ''SHORT'' then flag_red
         else if po_key \<in> low_avail then flag_purple
         else if vStatus row = ''OK'' then flag_green
         else [])"

text \<open>
  The columns \<^verbatim>\<open>Status\<close>, \<^verbatim>\<open>Short_Detail\<close> and \<^verbatim>\<open>Flag\<close> of one row of the view, when
  there are demand records. The text of the detail (which also reads the incoming
  deliveries) is a parameter \<open>detail\<close>, a dictionary from PO line to text.
\<close>

definition compute_row :: "(string \<rightharpoonup> string) \<Rightarrow> 'd alloc_row list \<Rightarrow> view_row \<Rightarrow> view_row" where
  "compute_row detail alloc row =
     (let r1 = row\<lparr>vStatus := (case short_by_po alloc (vPO_Line row) of None \<Rightarrow> [] | Some s \<Rightarrow> s),
                    vShort_Detail := (case detail (vPO_Line row) of None \<Rightarrow> [] | Some s \<Rightarrow> s)\<rparr>;
          r2 = (if vStatus r1 = ''OK'' \<and> vPO_Line r1 \<in> supported_pos alloc
                then r1\<lparr>vShort_Detail := ''Component Supported''\<rparr> else r1);
          r3 = (if \<not> vHasComponents r2 then r2\<lparr>vStatus := [], vShort_Detail := []\<rparr> else r2)
      in r3\<lparr>vFlag := flag_for_row (small_short_pos alloc) (low_avail_pos alloc) r3\<rparr>)"

subsection \<open>The override\<close>

text \<open>
  \<^verbatim>\<open>key_map = {str(k).strip(): bool(v) for k, v in overrides.items()}\<close>: of two keys that
  are equal once stripped, the later one counts.
\<close>

definition key_map :: "bool dict \<Rightarrow> string \<rightharpoonup> bool" where
  "key_map overrides = map_of (rev (map (\<lambda>(k, v). (py_strip k, v)) overrides))"

definition override_mask :: "bool \<Rightarrow> bool dict \<Rightarrow> view_row \<Rightarrow> bool" where
  "override_mask flag_col overrides row =
     ((case key_map overrides (py_strip (vPO_Line row)) of None \<Rightarrow> False | Some v \<Rightarrow> v) \<and>
      (flag_col \<longrightarrow> py_strip (vFlag row) = flag_purple))"

text \<open>
  \<open>flag_col\<close> says whether the frame has a column \<^verbatim>\<open>Flag\<close>; the view always has
  one when the function is called (without it the field \<^const>\<open>vFlag\<close> is not read and
  not written).
\<close>

definition apply_component_support_overrides ::
  "bool \<Rightarrow> view_row list \<Rightarrow> bool dict \<Rightarrow> view_row list" where
  "apply_component_support_overrides flag_col df overrides =
     (if df = [] then df
      else if overrides = [] then df
      else map (\<lambda>row.
             if override_mask flag_col overrides row
             then (let r = row\<lparr>vShort_Detail := ''Component Supported'', vStatus := ''OK''\<rparr>
                   in if flag_col then r\<lparr>vFlag := flag_green\<rparr> else r)
             else row) df)"

subsection \<open>Re-validation of an override\<close>

text \<open>
  The part of \<^verbatim>\<open>render_details_page\<close> that reads and clears the override of the selected
  PO line; the result is the dictionary \<^verbatim>\<open>support_overrides\<close> of the session (which the
  function also saves to the file when it changes it). The check box further down the
  page, which stores what the user ticks, is not part of this.
\<close>

definition render_details_page :: "string \<Rightarrow> view_row list \<Rightarrow> bool dict \<Rightarrow> bool dict" where
  "render_details_page selected df_show support_overrides =
     (let selected_po = py_strip selected
      in if selected_po = [] then support_overrides
         else case filter (\<lambda>r. vPO_Line r = selected_po) df_show of
                [] \<Rightarrow> support_overrides
              | row # _ \<Rightarrow>
                  (let support_checked = dict_get support_overrides (py_strip selected_po);
                       is_purple_flag = (py_strip (vFlag row) = flag_purple)
                   in if support_checked \<and> \<not> is_purple_flag
                      then AList.update (py_strip selected_po) False support_overrides
                      else support_overrides))"

text \<open>
  What one run of the script does to the dictionary of overrides: computing the view
  reads it and does not change it, and of the pages only the details page touches it.
\<close>

definition run_support_overrides ::
  "string \<Rightarrow> string \<Rightarrow> view_row list \<Rightarrow> bool dict \<Rightarrow> bool dict" where
  "run_support_overrides page selected df_show support_overrides =
     (if page = ''details'' then render_details_page selected df_show support_overrides
      else support_overrides)"

subsection \<open>Examples\<close>

text \<open>
  Stock of 1000; line 1 needs 600 and line 2 needs 450 a day later: line 2 starts
  from 400, which is not low, and is short by 50, a small shortfall.
\<close>

definition ex_stock_1000 :: "stock_row list" where
  "ex_stock_1000 = [\<lparr>Article = ''A'', QOH = Some 1000, Allocation = Some 0,
                     QCHold_QCI = Some 0, QCHold_QCH = Some 0\<rparr>]"

definition ex_big1 :: "string demand_row" where
  "ex_big1 = \<lparr>PO_Line = ''line1'', DeliveryDate = ''2026-01-01'', Component = ''LID'',
               ComponentArticle = ''A'', NeedQty = 600, QtyPerAssembly = 1, QtyEA = 600\<rparr>"

definition ex_big2 :: "string demand_row" where
  "ex_big2 = \<lparr>PO_Line = ''line2'', DeliveryDate = ''2026-01-02'', Component = ''LID'',
               ComponentArticle = ''A'', NeedQty = 450, QtyPerAssembly = 1, QtyEA = 450\<rparr>"

definition ex_alloc_small :: "string alloc_row list" where
  "ex_alloc_small =
     [\<lparr>Demand = ex_big1, AvailableStart = 1000, Allocated = 600, Short = 0, Status = ''OK''\<rparr>,
      \<lparr>Demand = ex_big2, AvailableStart = 400, Allocated = 400, Short = 50, Status = ''SHORT''\<rparr>]"

definition ex_view_line2 :: view_row where
  "ex_view_line2 = \<lparr>vPO_Line = ''line2'', vHasComponents = True, vStatus = [],
                     vShort_Detail = [], vFlag = []\<rparr>"

definition ex_detail :: "string \<rightharpoonup> string" where
  "ex_detail = [''line2'' \<mapsto> ''LID A (need 450 pcs, avail 400 pcs)'']"

definition ex_computed_line2 :: view_row where
  "ex_computed_line2 = \<lparr>vPO_Line = ''line2'', vHasComponents = True, vStatus = ''SHORT'',
       vShort_Detail = ''LID A (need 450 pcs, avail 400 pcs)'', vFlag = flag_purple\<rparr>"

definition ex_green :: "string \<Rightarrow> view_row" where
  "ex_green po = \<lparr>vPO_Line = po, vHasComponents = True, vStatus = ''OK'',
       vShort_Detail = ''Component Supported'', vFlag = flag_green\<rparr>"

definition ex_red :: view_row where
  "ex_red = \<lparr>vPO_Line = ''line3'', vHasComponents = True, vStatus = ''SHORT'',
       vShort_Detail = ''LID B (need 500 pcs, avail 0 pcs)'', vFlag = flag_red\<rparr>"

definition ex_overrides :: "bool dict" where
  "ex_overrides = [(''line2'', True), (''line3'', True)]"

text \<open>Two lines that are fully supported, both with a stored override.\<close>

definition ex_view_green :: "view_row list" where
  "ex_view_green = [ex_green ''P1'', ex_green ''P2'']"

definition ex_stale :: "bool dict" where
  "ex_stale = [(''P1'', True), (''P2'', True)]"

section \<open>Change detection\<close>

text \<open>
  A cell of a view: \<^verbatim>\<open>None\<close>, a float \<^verbatim>\<open>NaN\<close>, or any other value, given by the text
  that \<^verbatim>\<open>str\<close> makes of it.
\<close>

datatype cell = PyNone | NaN | Val string

definition py_str :: "cell \<Rightarrow> string" where
  "py_str x = (case x of PyNone \<Rightarrow> ''None'' | NaN \<Rightarrow> ''nan'' | Val s \<Rightarrow> s)"

definition safe_str :: "cell \<Rightarrow> string" where
  "safe_str x = (case x of PyNone \<Rightarrow> [] | NaN \<Rightarrow> [] | Val s \<Rightarrow> py_strip s)"

text \<open>
  A data frame: its column names and its rows. A row gives a cell for every column
  name; the code reads a row only at columns of the frame.
\<close>

record frame =
  frame_columns :: "string list"
  frame_rows :: "(string \<Rightarrow> cell) list"

definition TRACK_COLS :: "string list" where
  "TRACK_COLS = [''Article'', ''QtyEA'', ''DeliveryDate'', ''StatisticalDate'', ''Status'',
                 ''Short_Detail'', ''FS_Lot'', ''FS_Status'']"

definition CHANGE_VIEW_COLS :: "string list" where
  "CHANGE_VIEW_COLS = ''PO-Line'' # TRACK_COLS"

record change_record =
  RunTS :: int
  cPO_Line :: string
  Field :: string
  Old :: string
  New :: string
  Description :: string

text \<open>
  The label of a change. The sum of the numbers that follow the word "avail" in a
  detail text (\<^verbatim>\<open>_sum_avail_from_short_detail\<close>, a regular expression and the parsing
  of floats) is a parameter \<open>sum_avail\<close>.
\<close>

definition label_change :: "(string \<Rightarrow> real) \<Rightarrow> string \<Rightarrow> string \<Rightarrow> string \<Rightarrow> string" where
  "label_change sum_avail field oldv newv =
     (let f = py_strip field
      in if f = ''FS_Status'' \<or> f = ''FS_Lot'' then ''FS changed''
         else if f = ''Status'' then ''Status changed''
         else if f = ''Short_Detail'' then
           (let old_sum = sum_avail oldv; new_sum = sum_avail newv
            in if (0 < old_sum \<or> 0 < new_sum) \<and> old_sum < new_sum then ''Availability increased''
               else if (0 < old_sum \<or> 0 < new_sum) \<and> new_sum < old_sum then ''Availability decreased''
               else ''Short detail changed'')
         else if f = ''DeliveryDate'' \<or> f = ''StatisticalDate'' then ''Date changed''
         else if f = ''QtyEA'' then ''Qty changed''
         else if f = ''Article'' then ''Article changed''
         else if f \<noteq> [] then f @ '' changed'' else ''Changed'')"

text \<open>\<^verbatim>\<open>frame[keep]\<close>: the frame with the columns \<open>keep\<close> only.\<close>

definition select_columns :: "string list \<Rightarrow> frame \<Rightarrow> frame" where
  "select_columns keep f =
     \<lparr>frame_columns = keep,
      frame_rows = map (\<lambda>r c. if c \<in> set keep then r c else PyNone) (frame_rows f)\<rparr>"

definition row_key :: "(string \<Rightarrow> cell) \<Rightarrow> string" where
  "row_key r = py_strip (py_str (r ''PO-Line''))"

text \<open>\<^verbatim>\<open>{str(r["PO-Line"]).strip(): r for _, r in frame.iterrows()}\<close>: the last row of a key counts.\<close>

fun rows_by_key ::
  "(string \<rightharpoonup> (string \<Rightarrow> cell)) \<Rightarrow> (string \<Rightarrow> cell) list \<Rightarrow> (string \<rightharpoonup> (string \<Rightarrow> cell))" where
  "rows_by_key m [] = m"
| "rows_by_key m (r # rs) = rows_by_key (m(row_key r \<mapsto> r)) rs"

definition field_changes ::
  "(string \<Rightarrow> real) \<Rightarrow> int \<Rightarrow> frame \<Rightarrow> frame \<Rightarrow> string \<Rightarrow> (string \<Rightarrow> cell) \<Rightarrow> (string \<Rightarrow> cell)
     \<Rightarrow> string \<Rightarrow> change_record list" where
  "field_changes sum_avail run_ts cur prev k old_row new_row c =
     (if c \<notin> set (frame_columns cur) \<or> c \<notin> set (frame_columns prev) then []
      else (let oldv = safe_str (old_row c); newv = safe_str (new_row c)
            in if oldv \<noteq> newv
               then [\<lparr>RunTS = run_ts, cPO_Line = k, Field = c, Old = oldv, New = newv,
                      Description = label_change sum_avail c oldv newv\<rparr>]
               else []))"

definition frame_empty :: "frame \<Rightarrow> bool" where
  "frame_empty f = (frame_rows f = [] \<or> frame_columns f = [])"

definition compute_change_log ::
  "(string \<Rightarrow> real) \<Rightarrow> frame \<Rightarrow> frame option \<Rightarrow> int \<Rightarrow> change_record list" where
  "compute_change_log sum_avail current_view prev_view run_ts =
     (case prev_view of
        None \<Rightarrow> []
      | Some prev_view' \<Rightarrow>
          if frame_empty prev_view' then []
          else if ''PO-Line'' \<notin> set (frame_columns prev_view')
                  \<or> ''PO-Line'' \<notin> set (frame_columns current_view) then []
          else
            (let prev = select_columns
                   (filter (\<lambda>c. c \<in> set (frame_columns prev_view')) CHANGE_VIEW_COLS) prev_view';
                 cur = select_columns
                   (filter (\<lambda>c. c \<in> set (frame_columns current_view)) CHANGE_VIEW_COLS) current_view;
                 prev_map = rows_by_key Map.empty (frame_rows prev);
                 cur_map = rows_by_key Map.empty (frame_rows cur);
                 keys = sort (remdups (filter (\<lambda>k. cur_map k \<noteq> None)
                                         (map row_key (frame_rows prev))))
             in concat (map (\<lambda>k.
                  case (prev_map k, cur_map k) of
                    (Some old_row, Some new_row) \<Rightarrow>
                      concat (map (field_changes sum_avail run_ts cur prev k old_row new_row)
                                TRACK_COLS)
                  | _ \<Rightarrow> []) keys)))"

text \<open>
  The files of the two stores and the two values the session keeps. Each store has a
  parquet file and a pickle file beside it; a file that does not exist is \<^term>\<open>None\<close>.
\<close>

record store =
  LAST_VIEW_FILE :: "frame option"
  LAST_VIEW_pkl :: "frame option"
  CHANGE_LOG_FILE :: "change_record list option"
  CHANGE_LOG_pkl :: "change_record list option"
  last_view_snapshot :: "frame option"
  change_history :: "change_record list"

text \<open>
  Every read and write of a file can raise, and the code catches the exception. What
  happens in one run is a parameter: for each kind of operation, whether it succeeds.
  A write that fails leaves the file as it was, and a read that succeeds gives what
  was written.
\<close>

record io =
  view_parquet_write :: bool
  view_pickle_write :: bool
  view_parquet_read :: bool
  view_pickle_read :: bool
  log_parquet_write :: bool
  log_pickle_write :: bool
  log_parquet_read :: bool
  log_pickle_read :: bool

definition read_view_pkl :: "io \<Rightarrow> store \<Rightarrow> frame option" where
  "read_view_pkl io st =
     (case LAST_VIEW_pkl st of None \<Rightarrow> None | Some p \<Rightarrow> if view_pickle_read io then Some p else None)"

text \<open>
  \<^verbatim>\<open>load_last_view_snapshot\<close>: the parquet file when it exists and can be read; the
  pickle file when the parquet file cannot be read or does not exist.
\<close>

definition load_last_view_snapshot :: "io \<Rightarrow> store \<Rightarrow> frame option" where
  "load_last_view_snapshot io st =
     (case LAST_VIEW_FILE st of
        Some v \<Rightarrow> if view_parquet_read io then Some v else read_view_pkl io st
      | None \<Rightarrow> read_view_pkl io st)"

text \<open>
  \<^verbatim>\<open>persist_view_snapshot\<close>: the parquet file is written; when that fails the pickle
  file is written; when that fails too, nothing is.
\<close>

definition persist_view_snapshot :: "io \<Rightarrow> frame \<Rightarrow> store \<Rightarrow> store" where
  "persist_view_snapshot io df_view st =
     (if view_parquet_write io then st\<lparr>LAST_VIEW_FILE := Some df_view\<rparr>
      else if view_pickle_write io then st\<lparr>LAST_VIEW_pkl := Some df_view\<rparr>
      else st)"

text \<open>
  \<^verbatim>\<open>load_change_history\<close>: without a parquet file the history is empty; the pickle
  file is read only when the parquet file exists and cannot be read.
\<close>

definition load_change_history :: "io \<Rightarrow> store \<Rightarrow> change_record list" where
  "load_change_history io st =
     (case CHANGE_LOG_FILE st of
        None \<Rightarrow> []
      | Some h \<Rightarrow>
          if log_parquet_read io then h
          else (case CHANGE_LOG_pkl st of
                  None \<Rightarrow> []
                | Some p \<Rightarrow> if log_pickle_read io then p else []))"

text \<open>
  \<^verbatim>\<open>append_change_history\<close>: nothing happens for an empty log; otherwise the log is added
  to the history that is read, the whole is sorted (stably) by time stamp, PO line and
  field, and written as the persisted view is.
\<close>

definition append_change_history :: "io \<Rightarrow> change_record list \<Rightarrow> store \<Rightarrow> store" where
  "append_change_history io df_new st =
     (if df_new = [] then st
      else (let existing = load_change_history io st;
                out = sort_key (\<lambda>r. (RunTS r, cPO_Line r, Field r)) (existing @ df_new)
            in if log_parquet_write io then st\<lparr>CHANGE_LOG_FILE := Some out\<rparr>
               else if log_pickle_write io then st\<lparr>CHANGE_LOG_pkl := Some out\<rparr>
               else st))"

text \<open>
  The end of a run that rolls forward: the view restricted to the tracked columns is
  compared with the snapshot of the session, the log is appended to the history, the
  view is persisted, and the session takes the history and the snapshot that it reads
  back from the files.
\<close>

definition tracked_view :: "frame \<Rightarrow> frame" where
  "tracked_view df_show =
     select_columns (filter (\<lambda>c. c \<in> set (frame_columns df_show)) CHANGE_VIEW_COLS) df_show"

definition roll_forward :: "io \<Rightarrow> (string \<Rightarrow> real) \<Rightarrow> int \<Rightarrow> frame \<Rightarrow> store \<Rightarrow> store" where
  "roll_forward io sum_avail roll_forward_ts df_show st =
     (let prev_view = last_view_snapshot st;
          cur_view = tracked_view df_show;
          df_log = compute_change_log sum_avail cur_view prev_view roll_forward_ts;
          st1 = append_change_history io df_log st;
          st2 = st1\<lparr>change_history := load_change_history io st1\<rparr>;
          st3 = persist_view_snapshot io cur_view st2
      in st3\<lparr>last_view_snapshot := load_last_view_snapshot io st3\<rparr>)"

text \<open>A view of one PO line whose quantity changes from 10 to 12.\<close>

definition ex_frame :: "string \<Rightarrow> frame" where
  "ex_frame qty =
     \<lparr>frame_columns = [''PO-Line'', ''QtyEA'', ''Status''],
      frame_rows = [(\<lambda>c. PyNone)(''PO-Line'' := Val ''4500-1'', ''QtyEA'' := Val qty,
                                   ''Status'' := Val ''OK'')]\<rparr>"

text \<open>
  A session whose snapshot is the view with quantity 10, stored in the parquet file; a
  run in which every operation succeeds, and one in which the parquet file of the view
  cannot be written.
\<close>

definition ex_store :: store where
  "ex_store = \<lparr>LAST_VIEW_FILE = Some (tracked_view (ex_frame ''10'')), LAST_VIEW_pkl = None,
                CHANGE_LOG_FILE = None, CHANGE_LOG_pkl = None,
                last_view_snapshot = Some (tracked_view (ex_frame ''10'')),
                change_history = []\<rparr>"

definition io_ok :: io where
  "io_ok = \<lparr>view_parquet_write = True, view_pickle_write = True, view_parquet_read = True,
            view_pickle_read = True, log_parquet_write = True, log_pickle_write = True,
            log_parquet_read = True, log_pickle_read = True\<rparr>"

definition io_view_parquet_fails :: io where
  "io_view_parquet_fails = io_ok\<lparr>view_parquet_write := False\<rparr>"

definition ex_change :: "int \<Rightarrow> change_record" where
  "ex_change ts = \<lparr>RunTS = ts, cPO_Line = ''4500-1'', Field = ''QtyEA'', Old = ''10'', New = ''12'',
                    Description = ''Qty changed''\<rparr>"

section \<open>Tabular PO ingestor\<close>

definition is_digit :: "char \<Rightarrow> bool" where
  "is_digit c = (let n = (of_char c :: nat) in 48 \<le> n \<and> n \<le> 57)"


text \<open>
  \<^verbatim>\<open>str(int(d))\<close> of a string of digits drops the zeros in front, and is \<open>0\<close> when all
  digits are zero.
\<close>

definition str_int :: "string \<Rightarrow> string" where
  "str_int d = (let z = dropWhile (\<lambda>c. c = CHR ''0'') d in if z = [] then ''0'' else z)"

definition norm_line :: "string \<Rightarrow> string" where
  "norm_line v = (let s = py_strip v; d = filter is_digit s in if d = [] then s else str_int d)"










text \<open>The numbers of the columns that are read, and the greatest of them.\<close>

definition COLS :: "nat list" where
  "COLS = [3, 4, 5, 6, 10, 11, 12, 14, 18]"

definition need :: nat where
  "need = fold max COLS 0"








section \<open>Document BOM extractor\<close>

subsection \<open>Characters and the regular expressions\<close>

text \<open>
  The regular expressions of the extractor are written out as functions on strings.
  A word character (\<^verbatim>\<open>\w\<close>) is an ASCII letter, a digit or the underscore; \<^verbatim>\<open>\b\<close> is the
  place between a word character and a character that is not one (or an end of the
  string); matching that ignores case compares the ASCII upper-case forms.
\<close>

definition is_word :: "char \<Rightarrow> bool" where
  "is_word c =
     (let n = (of_char c :: nat)
      in (48 \<le> n \<and> n \<le> 57) \<or> (65 \<le> n \<and> n \<le> 90) \<or> n = 95 \<or> (97 \<le> n \<and> n \<le> 122))"

definition upper_char :: "char \<Rightarrow> char" where
  "upper_char c =
     (let n = (of_char c :: nat) in if 97 \<le> n \<and> n \<le> 122 then char_of (n - 32) else c)"

definition py_upper :: "string \<Rightarrow> string" where
  "py_upper s = map upper_char s"

definition starts_with :: "string \<Rightarrow> string \<Rightarrow> bool" where
  "starts_with lit s = (take (length lit) s = lit)"

text \<open>A literal at the start of the string, ignoring case: what follows the literal.\<close>

definition match_ci :: "string \<Rightarrow> string \<Rightarrow> string option" where
  "match_ci lit s =
     (if length lit \<le> length s \<and> py_upper (take (length lit) s) = py_upper lit
      then Some (drop (length lit) s) else None)"

text \<open>\<^verbatim>\<open>\s+\<close> at the start of the string: what follows the white space.\<close>

definition spaces1 :: "string \<Rightarrow> string option" where
  "spaces1 s = (case s of [] \<Rightarrow> None | c # cs \<Rightarrow> if is_space c then Some (dropWhile is_space cs) else None)"

text \<open>\<^verbatim>\<open>\b\<close> after a word character: the rest is empty or starts with no word character.\<close>

definition word_end :: "string \<Rightarrow> bool" where
  "word_end s = (case s of [] \<Rightarrow> True | c # _ \<Rightarrow> \<not> is_word c)"

fun contains :: "string \<Rightarrow> string \<Rightarrow> bool" where
  "contains sub [] = (sub = [])"
| "contains sub (c # cs) = (starts_with sub (c # cs) \<or> contains sub cs)"

text \<open>
  \<^verbatim>\<open>re.search(r"\bWORD\b", d)\<close> for a word of word characters; \<open>prev\<close> says that the
  character before the string is a word character.
\<close>

fun word_search :: "bool \<Rightarrow> string \<Rightarrow> string \<Rightarrow> bool" where
  "word_search prev w [] = False"
| "word_search prev w (c # cs) =
     ((\<not> prev \<and> starts_with w (c # cs) \<and> word_end (drop (length w) (c # cs)))
      \<or> word_search (is_word c) w cs)"

definition has_word :: "string \<Rightarrow> string \<Rightarrow> bool" where
  "has_word w d = word_search False w d"

text \<open>
  \<^verbatim>\<open>PO_LINE_HEADER_RE.match(s)\<close>: five digits, white space, and a status word that ends
  at a word boundary. The result is group 1, the five digits.
\<close>

definition status_word :: "string \<Rightarrow> bool" where
  "status_word s =
     ((\<exists>w \<in> set [''Open'', ''Closed'', ''Cancelled'', ''Partially'', ''Delivered''].
         case match_ci w s of None \<Rightarrow> False | Some rest \<Rightarrow> word_end rest)
      \<or> (case match_ci ''Partially'' s of
            None \<Rightarrow> False
          | Some r1 \<Rightarrow>
              (case spaces1 r1 of
                 None \<Rightarrow> False
               | Some r2 \<Rightarrow>
                   (case match_ci ''Delivered'' r2 of None \<Rightarrow> False | Some rest \<Rightarrow> word_end rest))))"

definition PO_LINE_HEADER_RE :: "string \<Rightarrow> string option" where
  "PO_LINE_HEADER_RE s =
     (let s1 = dropWhile is_space s; g = take 5 s1
      in if length g = 5 \<and> (\<forall>c \<in> set g. is_digit c)
         then (case spaces1 (drop 5 s1) of
                 None \<Rightarrow> None
               | Some s2 \<Rightarrow> if status_word s2 then Some g else None)
         else None)"

text \<open>
  \<^verbatim>\<open>\bQTY\s+PER\s+ASSEMBLY\b\<close>, ignoring case, at the start of a string (what follows
  the match), and its first match in a string.
\<close>

definition mark_at :: "string \<Rightarrow> string option" where
  "mark_at s =
     (case match_ci ''QTY'' s of
        None \<Rightarrow> None
      | Some r1 \<Rightarrow>
          (case spaces1 r1 of
             None \<Rightarrow> None
           | Some r2 \<Rightarrow>
               (case match_ci ''PER'' r2 of
                  None \<Rightarrow> None
                | Some r3 \<Rightarrow>
                    (case spaces1 r3 of
                       None \<Rightarrow> None
                     | Some r4 \<Rightarrow>
                         (case match_ci ''ASSEMBLY'' r4 of
                            None \<Rightarrow> None
                          | Some r5 \<Rightarrow> if word_end r5 then Some r5 else None)))))"

fun mark_search :: "bool \<Rightarrow> string \<Rightarrow> string option" where
  "mark_search prev [] = None"
| "mark_search prev (c # cs) =
     (case (if prev then None else mark_at (c # cs)) of
        Some tail \<Rightarrow> Some tail
      | None \<Rightarrow> mark_search (is_word c) cs)"

definition QTY_PER_ASSEMBLY_RE :: "string \<Rightarrow> string option" where
  "QTY_PER_ASSEMBLY_RE s = mark_search False s"

definition COMPONENT_MARK_RE :: "string \<Rightarrow> bool" where
  "COMPONENT_MARK_RE s = (mark_search False s \<noteq> None)"

text \<open>
  \<^verbatim>\<open>ARTICLE_ANYWHERE_RE.search(s)\<close>, the pattern \<^verbatim>\<open>\b(\d{7,9})\b\<close>: the first run of
  seven to nine digits that stands between two word boundaries.
\<close>

fun article_search :: "bool \<Rightarrow> string \<Rightarrow> string option" where
  "article_search prev [] = None"
| "article_search prev (c # cs) =
     (let run = takeWhile is_digit (c # cs); rest = dropWhile is_digit (c # cs)
      in if \<not> prev \<and> 7 \<le> length run \<and> length run \<le> 9 \<and> word_end rest then Some run
         else article_search (is_word c) cs)"

definition ARTICLE_ANYWHERE_RE :: "string \<Rightarrow> string option" where
  "ARTICLE_ANYWHERE_RE s = article_search False s"

text \<open>
  \<^verbatim>\<open>NUM_RE.findall(tail)\<close>, the pattern \<^verbatim>\<open>[0-9]+(?:\.[0-9]+)?\<close>: the scanner keeps the
  number it is reading (its digits before and after the point); \<open>dot\<close> says that a
  point was read after the digits and no digit after it yet.
\<close>

datatype num_state = Idle | Int_part string | Dot string | Frac string string

fun num_scan :: "num_state \<Rightarrow> string \<Rightarrow> (string \<times> string) list" where
  "num_scan Idle [] = []"
| "num_scan (Int_part ds) [] = [(ds, [])]"
| "num_scan (Dot ds) [] = [(ds, [])]"
| "num_scan (Frac ds fs) [] = [(ds, fs)]"
| "num_scan Idle (c # cs) = (if is_digit c then num_scan (Int_part [c]) cs else num_scan Idle cs)"
| "num_scan (Int_part ds) (c # cs) =
     (if is_digit c then num_scan (Int_part (ds @ [c])) cs
      else if c = CHR ''.'' then num_scan (Dot ds) cs
      else (ds, []) # num_scan Idle cs)"
| "num_scan (Dot ds) (c # cs) =
     (if is_digit c then num_scan (Frac ds [c]) cs else (ds, []) # num_scan Idle cs)"
| "num_scan (Frac ds fs) (c # cs) =
     (if is_digit c then num_scan (Frac ds (fs @ [c])) cs else (ds, fs) # num_scan Idle cs)"

definition NUM_RE_findall :: "string \<Rightarrow> (string \<times> string) list" where
  "NUM_RE_findall tail = num_scan Idle tail"

text \<open>\<^verbatim>\<open>float\<close> of a number the pattern found, as a real number.\<close>

definition digits_value :: "string \<Rightarrow> nat" where
  "digits_value ds = foldl (\<lambda>n c. 10 * n + (of_char c - 48)) 0 ds"

definition float_of :: "string \<times> string \<Rightarrow> real" where
  "float_of n = real (digits_value (fst n)) + real (digits_value (snd n)) / 10 ^ length (snd n)"

definition extract_qty_per_assembly :: "string \<Rightarrow> real option" where
  "extract_qty_per_assembly line =
     (if line = [] then None
      else (case QTY_PER_ASSEMBLY_RE line of
              None \<Rightarrow> None
            | Some tail \<Rightarrow>
                (let numbers = NUM_RE_findall tail
                 in if numbers = [] then None else Some (float_of (last numbers)))))"

subsection \<open>Classification\<close>

datatype bucket = Glass | WRAP | BLBL | LID | FLBL | FRG

definition BUCKETS :: "bucket list" where
  "BUCKETS = [Glass, WRAP, BLBL, LID, FLBL, FRG]"

definition classify_component :: "string \<Rightarrow> bucket option" where
  "classify_component desc =
     (let d = py_upper desc
      in if contains ''POLYSHEET'' d \<and> contains ''LID'' d then None
         else if contains ''POLYSHEET'' d \<and> contains ''GLASS'' d then None
         else if contains ''SBA'' d \<or> contains ''SHRINK'' d \<or> contains ''SLEEVE'' d
                 \<or> has_word ''SLV'' d then Some WRAP
         else if contains ''FLBL'' d \<or> contains ''WLBL'' d then Some FLBL
         else if contains ''BLBL'' d then Some BLBL
         else if has_word ''LID'' d then Some LID
         else if (contains ''CYLINDER'' d \<and> contains ''GLASS'' d) \<or> has_word ''GLASS'' d
           then Some Glass
         else if contains ''FRAG'' d \<or> has_word ''FRG'' d then Some FRG
         else None)"

subsection \<open>The scan of a document\<close>

text \<open>
  An entry is an article code with its quantity per assembly, \<^term>\<open>None\<close> when the
  quantity is unknown. \<^verbatim>\<open>per_line\<close> is a dictionary from the line number to the
  dictionary of the six buckets; a line that is not in it yet has six empty lists.
\<close>

type_synonym item = "string \<times> real option"

type_synonym buckets = "bucket \<Rightarrow> item list"

definition empty_buckets :: buckets where
  "empty_buckets = (\<lambda>k. [])"

definition per_line_get :: "buckets dict \<Rightarrow> string \<Rightarrow> buckets" where
  "per_line_get per_line lno = (case map_of per_line lno of None \<Rightarrow> empty_buckets | Some bk \<Rightarrow> bk)"

text \<open>One text line of a page: the state is \<^verbatim>\<open>per_line\<close> and \<^verbatim>\<open>current_line_norm\<close>.\<close>

definition scan_line :: "buckets dict \<times> string option \<Rightarrow> string \<Rightarrow> buckets dict \<times> string option" where
  "scan_line st raw =
     (let (per_line, current_line_norm) = st; s = py_strip raw
      in if s = [] then st
         else case PO_LINE_HEADER_RE s of
                Some g \<Rightarrow> (per_line, Some (norm_line g))
              | None \<Rightarrow>
                 (case current_line_norm of
                    None \<Rightarrow> st
                  | Some lno \<Rightarrow>
                      if lno = [] then st
                      else if \<not> COMPONENT_MARK_RE s then st
                      else case classify_component s of
                             None \<Rightarrow> st
                           | Some b \<Rightarrow>
                              (case ARTICLE_ANYWHERE_RE s of
                                 None \<Rightarrow> st
                               | Some art \<Rightarrow>
                                  (let item = (art, extract_qty_per_assembly s);
                                       bk = per_line_get per_line lno
                                   in if item \<in> set (bk b)
                                      then (AList.update lno bk per_line, current_line_norm)
                                      else (AList.update lno (bk(b := bk b @ [item])) per_line,
                                            current_line_norm)))))"

text \<open>\<^verbatim>\<open>shared_items\<close> of a bucket: the entries of all lines, each once, in the order found.\<close>

fun add_new :: "'a list \<Rightarrow> 'a list \<Rightarrow> 'a list" where
  "add_new acc [] = acc"
| "add_new acc (x # xs) = (if x \<in> set acc then add_new acc xs else add_new (acc @ [x]) xs)"

definition shared_items :: "buckets dict \<Rightarrow> bucket \<Rightarrow> item list" where
  "shared_items per_line b = add_new [] (concat (map (\<lambda>(lno, bk). bk b) per_line))"

definition fallback :: "buckets dict \<Rightarrow> buckets dict" where
  "fallback per_line =
     (if 1 < length per_line
      then map (\<lambda>(lno, bk). (lno, (\<lambda>b. if bk b = [] then shared_items per_line b else bk b))) per_line
      else per_line)"

text \<open>
  The document is given as the text lines of its pages (\<^verbatim>\<open>extract_text\<close> and
  \<^verbatim>\<open>splitlines\<close>); a page without text has no lines that count.
\<close>

definition parse_po_pdf_by_line :: "string list list \<Rightarrow> buckets dict" where
  "parse_po_pdf_by_line pages = fallback (fst (foldl scan_line ([], None) (concat pages)))"

text \<open>A document whose line 1 lists one lid twice, with two quantities.\<close>

definition ex_pdf :: "string list list" where
  "ex_pdf = [[''00001 Open'', ''LID 1234567 QTY PER ASSEMBLY 1'', ''LID 1234567 QTY PER ASSEMBLY 2'',
              ''LID 1234567 QTY PER ASSEMBLY 2.0'']]"

subsection \<open>Notions used to state the properties of the extractor\<close>

text \<open>
  The line numbers of the dictionary are pairwise different, and so are the entries of
  every bucket of every line.
\<close>

definition unique_entries :: "buckets dict \<Rightarrow> bool" where
  "unique_entries per_line =
     (distinct (map fst per_line) \<and>
      (\<forall>lno bk b. map_of per_line lno = Some bk \<longrightarrow> distinct (bk b)))"

text \<open>A list without the later copies of its elements: the first of each stays, in order.\<close>

definition keep_first :: "'a list \<Rightarrow> 'a list" where
  "keep_first xs = rev (remdups (rev xs))"

text \<open>
  A document of three lines: line 2 has no lid of its own, and the lid of lines 1 and 3
  has two quantities.
\<close>

definition ex_pdf_shared :: "string list list" where
  "ex_pdf_shared = [[''00001 Open'', ''LID 1234567 QTY PER ASSEMBLY 1'', ''00002 Open'',
                     ''FRAG 7654321 QTY PER ASSEMBLY''],
                    [''00003 Closed'', ''LID 1234567 QTY PER ASSEMBLY 3'']]"

section \<open>Properties of the allocation engine\<close>

lemma alloc_step_row:
  "fst (alloc_step rem d) =
     \<lparr>Demand = d, AvailableStart = get0 rem (py_strip (ComponentArticle d)),
      Allocated = min (get0 rem (py_strip (ComponentArticle d))) (NeedQty d),
      Short = max 0 (NeedQty d - min (get0 rem (py_strip (ComponentArticle d))) (NeedQty d)),
      Status = status_of
        (max 0 (NeedQty d - min (get0 rem (py_strip (ComponentArticle d))) (NeedQty d)))\<rparr>"
  by (simp add: alloc_step_def Let_def)

lemma alloc_step_remaining:
  "get0 (snd (alloc_step rem d)) a =
     (if a = py_strip (ComponentArticle d)
      then get0 rem a - min (get0 rem a) (NeedQty d) else get0 rem a)"
  by (simp add: alloc_step_def Let_def get0_def)

lemma alloc_loop_Cons:
  "fst (alloc_loop rem (d # ds)) =
     fst (alloc_step rem d) # fst (alloc_loop (snd (alloc_step rem d)) ds)"
  by (simp add: split_beta Let_def)

lemma alloc_loop_Cons_snd:
  "snd (alloc_loop rem (d # ds)) = snd (alloc_loop (snd (alloc_step rem d)) ds)"
  by (simp add: split_beta Let_def)

declare alloc_loop.simps(2) [simp del]

lemma alloc_loop_demands: "map Demand (fst (alloc_loop rem ds)) = ds"
  by (induction ds arbitrary: rem) (simp_all add: alloc_loop_Cons alloc_step_row)

lemma alloc_loop_balance:
  "r \<in> set (fst (alloc_loop rem ds)) \<Longrightarrow>
     Allocated r + Short r = NeedQty (Demand r) \<and> 0 \<le> Short r"
proof (induction ds arbitrary: rem)
  case Nil
  then show ?case by simp
next
  case (Cons d ds)
  then show ?case by (auto simp: alloc_loop_Cons alloc_step_row)
qed

lemma ex_sorted: "sort_values ex_to_datetime [ex_line2, ex_line1] = [ex_line1, ex_line2]"
  by (simp add: sort_values_def demand_key_def ex_to_datetime_def ex_line1_def ex_line2_def)

lemma ex_sorted': "sort_values ex_to_datetime [ex_line1, ex_line2] = [ex_line1, ex_line2]"
  by (simp add: sort_values_def demand_key_def ex_to_datetime_def ex_line1_def ex_line2_def)

lemma ex_loop:
  "fst (alloc_loop (avail_map ex_stock) [ex_line1, ex_line2]) =
     ex_rows"
  by (simp add: alloc_loop_Cons alloc_step_row alloc_step_remaining get0_def
      ex_line1_def ex_line2_def ex_stock_def avail_map_def Avail_def fillna_def
      py_strip_def is_space_def status_of_def alloc_step_def Let_def ex_rows_def)

lemma ex_allocation:
  "allocate_by_delivery ex_to_datetime [ex_line1, ex_line2] ex_stock =
     ex_rows"
  by (simp add: allocate_by_delivery_def ex_sorted' ex_loop)

lemma ex_allocation_reversed_input:
  "allocate_by_delivery ex_to_datetime [ex_line2, ex_line1] ex_stock =
     ex_rows"
  by (simp add: allocate_by_delivery_def ex_sorted ex_loop)

text \<open>
  C2. For every row of the allocation output, allocated plus short equals needed, and
  short is not negative.
\<close>

theorem allocated_plus_short_is_needed:
  "r \<in> set (allocate_by_delivery to_datetime demands stock) \<Longrightarrow>
     Allocated r + Short r = NeedQty (Demand r) \<and> 0 \<le> Short r"
  by (cases "demands = []") (auto simp: allocate_by_delivery_def dest: alloc_loop_balance)

theorem allocated_plus_short_is_needed_witness:
  "\<lparr>Demand = ex_line2, AvailableStart = 40, Allocated = 40, Short = 20, Status = ''SHORT''\<rparr>
     \<in> set (allocate_by_delivery ex_to_datetime [ex_line1, ex_line2] ex_stock) \<and>
   (40::real) + 20 = NeedQty ex_line2 \<and> (0::real) \<le> 20"
  using allocated_plus_short_is_needed
    [of "\<lparr>Demand = ex_line2, AvailableStart = 40, Allocated = 40, Short = 20, Status = ''SHORT''\<rparr>"
        ex_to_datetime "[ex_line1, ex_line2]" ex_stock]
  by (simp add: ex_allocation ex_rows_def)




lemma alloc_loop_conservation:
  "allocated_to a (fst (alloc_loop rem ds)) \<le> max 0 (get0 rem a) \<and>
   (a \<in> (\<lambda>d. py_strip (ComponentArticle d)) ` set ds \<longrightarrow>
      allocated_to a (fst (alloc_loop rem ds)) \<le> get0 rem a)"
proof (induction ds arbitrary: rem)
  case Nil
  then show ?case by (simp add: allocated_to_def)
next
  case (Cons d ds)
  let ?rem' = "snd (alloc_step rem d)"
  have IH1: "allocated_to a (fst (alloc_loop ?rem' ds)) \<le> max 0 (get0 ?rem' a)"
    using Cons.IH by blast
  have IH2: "a \<in> (\<lambda>d. py_strip (ComponentArticle d)) ` set ds \<Longrightarrow>
      allocated_to a (fst (alloc_loop ?rem' ds)) \<le> get0 ?rem' a"
    using Cons.IH by blast
  show ?case
  proof (cases "a = py_strip (ComponentArticle d)")
    case True
    have "allocated_to a (fst (alloc_loop rem (d # ds))) =
          min (get0 rem a) (NeedQty d) + allocated_to a (fst (alloc_loop ?rem' ds))"
      using True by (simp add: alloc_loop_Cons allocated_to_def article_of_def alloc_step_row)
    moreover have "get0 ?rem' a = get0 rem a - min (get0 rem a) (NeedQty d)"
      using True by (simp add: alloc_step_remaining)
    ultimately have "allocated_to a (fst (alloc_loop rem (d # ds))) \<le> get0 rem a"
      using IH1 by (auto simp: min_def max_def split: if_splits)
    then show ?thesis by auto
  next
    case False
    have "allocated_to a (fst (alloc_loop rem (d # ds))) =
          allocated_to a (fst (alloc_loop ?rem' ds))"
      using False by (simp add: alloc_loop_Cons allocated_to_def article_of_def alloc_step_row)
    moreover have "get0 ?rem' a = get0 rem a"
      using False by (simp add: alloc_step_remaining)
    ultimately show ?thesis using IH1 IH2 False by auto
  qed
qed

lemma set_sort_values: "set (sort_values to_datetime ds) = set ds"
  by (simp add: sort_values_def)

lemma articles_of_output:
  "article_of ` set (allocate_by_delivery to_datetime demands stock) =
     (\<lambda>d. py_strip (ComponentArticle d)) ` set demands"
proof (cases "demands = []")
  case True
  then show ?thesis by (simp add: allocate_by_delivery_def)
next
  case False
  have "article_of ` set (fst (alloc_loop (avail_map stock) (sort_values to_datetime demands)))
        = (\<lambda>d. py_strip (ComponentArticle d)) ` set (map Demand (fst (alloc_loop (avail_map stock) (sort_values to_datetime demands))))"
    by (auto simp: article_of_def image_iff)
  then show ?thesis using False
    by (simp add: allocate_by_delivery_def alloc_loop_demands set_sort_values)
qed

text \<open>
  C3 (amended). For every article that some row of the output refers to, or whose
  snapshot availability is not negative, the sum of the allocated amounts over the rows
  of that article does not exceed the availability of the article in the snapshot (zero
  for an article the snapshot does not have).
\<close>

theorem allocation_conserves_stock:
  assumes "(\<exists>r \<in> set (allocate_by_delivery to_datetime demands stock). article_of r = a)
           \<or> 0 \<le> get0 (avail_map stock) a"
  shows "allocated_to a (allocate_by_delivery to_datetime demands stock) \<le> get0 (avail_map stock) a"
proof (cases "demands = []")
  case True
  then show ?thesis using assms by (simp add: allocate_by_delivery_def allocated_to_def)
next
  case False
  let ?ds = "sort_values to_datetime demands"
  have out: "allocate_by_delivery to_datetime demands stock = fst (alloc_loop (avail_map stock) ?ds)"
    using False by (simp add: allocate_by_delivery_def)
  from assms show ?thesis
  proof
    assume "\<exists>r \<in> set (allocate_by_delivery to_datetime demands stock). article_of r = a"
    then have "a \<in> article_of ` set (allocate_by_delivery to_datetime demands stock)" by auto
    then have "a \<in> (\<lambda>d. py_strip (ComponentArticle d)) ` set ?ds"
      by (simp add: articles_of_output set_sort_values)
    then show ?thesis using alloc_loop_conservation[of a "avail_map stock" ?ds] out by simp
  next
    assume "0 \<le> get0 (avail_map stock) a"
    then show ?thesis using alloc_loop_conservation[of a "avail_map stock" ?ds] out by simp
  qed
qed

lemma avail_map_from_append:
  "avail_map_from m (xs @ ys) = avail_map_from (avail_map_from m xs) ys"
  by (induction xs arbitrary: m) simp_all

lemma avail_map_from_other:
  "a \<notin> (\<lambda>t. py_strip (Article t)) ` set ss \<Longrightarrow> avail_map_from m ss a = m a"
  by (induction ss arbitrary: m) auto

lemma avail_map_last:
  "py_strip (Article s) \<notin> (\<lambda>t. py_strip (Article t)) ` set post \<Longrightarrow>
     avail_map (pre @ s # post) (py_strip (Article s)) = Some (Avail s)"
  by (simp add: avail_map_def avail_map_from_append avail_map_from_other)

lemma alloc_loop_first_start:
  "filter (\<lambda>r. article_of r = a) (fst (alloc_loop rem ds)) = r # rs \<Longrightarrow> AvailableStart r = get0 rem a"
proof (induction ds arbitrary: rem)
  case Nil
  then show ?case by simp
next
  case (Cons d ds)
  show ?case
  proof (cases "a = py_strip (ComponentArticle d)")
    case True
    then have "r = fst (alloc_step rem d)" using Cons.prems
      by (simp add: alloc_loop_Cons article_of_def alloc_step_row)
    then show ?thesis using True by (simp add: alloc_step_row)
  next
    case False
    then have "filter (\<lambda>r. article_of r = a) (fst (alloc_loop (snd (alloc_step rem d)) ds)) = r # rs"
      using Cons.prems by (simp add: alloc_loop_Cons article_of_def alloc_step_row)
    then have "AvailableStart r = get0 (snd (alloc_step rem d)) a" by (rule Cons.IH)
    then show ?thesis using False by (simp add: alloc_step_remaining)
  qed
qed

lemma alloc_loop_exhausted:
  "get0 rem a = 0 \<Longrightarrow> \<forall>d \<in> set ds. py_strip (ComponentArticle d) = a \<longrightarrow> 0 \<le> NeedQty d \<Longrightarrow>
   (\<forall>r \<in> set (fst (alloc_loop rem ds)). article_of r = a \<longrightarrow> AvailableStart r = 0 \<and> Allocated r = 0) \<and>
   get0 (snd (alloc_loop rem ds)) a = 0"
proof (induction ds arbitrary: rem)
  case Nil
  then show ?case by simp
next
  case (Cons d ds)
  have "get0 (snd (alloc_step rem d)) a = 0"
    using Cons.prems by (auto simp: alloc_step_remaining)
  moreover have "\<forall>d \<in> set ds. py_strip (ComponentArticle d) = a \<longrightarrow> 0 \<le> NeedQty d"
    using Cons.prems by simp
  ultimately have IH: "(\<forall>r \<in> set (fst (alloc_loop (snd (alloc_step rem d)) ds)). article_of r = a \<longrightarrow> AvailableStart r = 0 \<and> Allocated r = 0) \<and>
   get0 (snd (alloc_loop (snd (alloc_step rem d)) ds)) a = 0"
    by (rule Cons.IH)
  have "article_of (fst (alloc_step rem d)) = a \<longrightarrow>
     AvailableStart (fst (alloc_step rem d)) = 0 \<and> Allocated (fst (alloc_step rem d)) = 0"
    using Cons.prems by (auto simp: alloc_step_row article_of_def)
  then show ?case using IH by (simp add: alloc_loop_Cons alloc_loop_Cons_snd)
qed

lemma alloc_loop_negative:
  "get0 rem a < 0 \<Longrightarrow> \<forall>d \<in> set ds. py_strip (ComponentArticle d) = a \<longrightarrow> 0 \<le> NeedQty d \<Longrightarrow>
   filter (\<lambda>r. article_of r = a) (fst (alloc_loop rem ds)) = r # rs \<Longrightarrow>
   Allocated r = get0 rem a \<and> NeedQty (Demand r) < Short r \<and>
   (\<forall>r' \<in> set rs. AvailableStart r' = 0 \<and> Allocated r' = 0) \<and>
   get0 (snd (alloc_loop rem ds)) a = 0"
proof (induction ds arbitrary: rem)
  case Nil
  then show ?case by simp
next
  case (Cons d ds)
  let ?rem' = "snd (alloc_step rem d)"
  have needs: "\<forall>d \<in> set ds. py_strip (ComponentArticle d) = a \<longrightarrow> 0 \<le> NeedQty d"
    using Cons.prems by simp
  show ?case
  proof (cases "a = py_strip (ComponentArticle d)")
    case True
    have need: "0 \<le> NeedQty d" using True Cons.prems by simp
    have r: "r = fst (alloc_step rem d)"
      and rs: "rs = filter (\<lambda>r. article_of r = a) (fst (alloc_loop ?rem' ds))"
      using True Cons.prems(3) by (simp_all add: alloc_loop_Cons article_of_def alloc_step_row)
    have zero: "get0 ?rem' a = 0"
      using True need Cons.prems(1) by (simp add: alloc_step_remaining)
    have rest: "(\<forall>r \<in> set (fst (alloc_loop ?rem' ds)). article_of r = a \<longrightarrow> AvailableStart r = 0 \<and> Allocated r = 0) \<and>
       get0 (snd (alloc_loop ?rem' ds)) a = 0"
      using zero needs by (rule alloc_loop_exhausted)
    have "Allocated r = get0 rem a \<and> NeedQty (Demand r) < Short r"
      using r True need Cons.prems(1) by (simp add: alloc_step_row)
    then show ?thesis using rest rs by (simp add: alloc_loop_Cons_snd)
  next
    case False
    have "get0 ?rem' a < 0" using False Cons.prems(1) by (simp add: alloc_step_remaining)
    moreover have "filter (\<lambda>r. article_of r = a) (fst (alloc_loop ?rem' ds)) = r # rs"
      using False Cons.prems(3) by (simp add: alloc_loop_Cons article_of_def alloc_step_row)
    ultimately have "Allocated r = get0 ?rem' a \<and> NeedQty (Demand r) < Short r \<and>
       (\<forall>r' \<in> set rs. AvailableStart r' = 0 \<and> Allocated r' = 0) \<and>
       get0 (snd (alloc_loop ?rem' ds)) a = 0"
      using needs Cons.IH by blast
    then show ?thesis using False by (simp add: alloc_step_remaining alloc_loop_Cons_snd)
  qed
qed


lemma ex_negative_avail: "avail_map [ex_stock_negative] ''A'' = Some (- 5)"
  by (simp add: avail_map_def ex_stock_negative_def Avail_def fillna_def py_strip_def is_space_def)

lemma ex_negative_loop:
  "alloc_loop (avail_map [ex_stock_negative]) [ex_line1, ex_line2] = (ex_rows_negative, [''A'' \<mapsto> 0])"
  by (simp add: alloc_loop.simps alloc_step_def Let_def get0_def ex_negative_avail
      ex_line1_def ex_line2_def py_strip_def is_space_def status_of_def ex_rows_negative_def
      avail_map_def ex_stock_negative_def Avail_def fillna_def)

lemma spec_precedes_iff:
  "spec_precedes to_datetime a b \<longleftrightarrow> demand_key to_datetime a \<le> demand_key to_datetime b"
  by (auto simp: spec_precedes_def demand_key_def tie_break_def split: option.splits)



lemma ex_other_allocation:
  "allocate_by_delivery ex_to_datetime [ex_line_other] [ex_stock_negative] =
     [\<lparr>Demand = ex_line_other, AvailableStart = 0, Allocated = 0, Short = 10,
       Status = ''SHORT''\<rparr>]"
  by (simp add: allocate_by_delivery_def sort_values_def alloc_loop_Cons alloc_step_row
      get0_def avail_map_def ex_stock_negative_def ex_line_other_def py_strip_def
      is_space_def status_of_def)

theorem allocation_conserves_stock_witness:
  "(\<exists>r \<in> set (allocate_by_delivery ex_to_datetime [ex_line1, ex_line2] ex_stock).
      article_of r = ''A'') \<and>
   allocated_to ''A'' (allocate_by_delivery ex_to_datetime [ex_line1, ex_line2] ex_stock)
     \<le> get0 (avail_map ex_stock) ''A''"
proof -
  have h: "\<exists>r \<in> set (allocate_by_delivery ex_to_datetime [ex_line1, ex_line2] ex_stock).
      article_of r = ''A''"
    unfolding ex_allocation
    by (simp add: ex_rows_def article_of_def ex_line1_def py_strip_def is_space_def)
  then have "(\<exists>r \<in> set (allocate_by_delivery ex_to_datetime [ex_line1, ex_line2] ex_stock).
      article_of r = ''A'') \<or> 0 \<le> get0 (avail_map ex_stock) ''A''" by (rule disjI1)
  from allocation_conserves_stock [OF this] h show ?thesis by (rule_tac conjI)
qed

theorem allocation_conserves_stock_counterexample:
  "\<not> allocated_to ''A'' (allocate_by_delivery ex_to_datetime [ex_line_other] [ex_stock_negative])
       \<le> get0 (avail_map [ex_stock_negative]) ''A''"
  unfolding ex_other_allocation
  by (simp add: allocated_to_def article_of_def ex_line_other_def
      py_strip_def is_space_def get0_def ex_negative_avail)

text \<open>
  C1 (amended). The entry of the remaining-quantity map for a stock record is on hand
  minus the two quality holds; the quantity allocated elsewhere is not subtracted, and
  the value is not clamped. (Of several records of one article the last one counts.)
  The first row processed for the article starts from that value.
\<close>

theorem available_quantity_of_stock_record:
  assumes "py_strip (Article s) \<notin> (\<lambda>t. py_strip (Article t)) ` set post"
  shows "avail_map (pre @ s # post) (py_strip (Article s)) =
           Some (fillna 0 (QOH s) - fillna 0 (QCHold_QCI s) - fillna 0 (QCHold_QCH s)) \<and>
         (filter (\<lambda>r. article_of r = py_strip (Article s))
            (allocate_by_delivery to_datetime demands (pre @ s # post)) = r # rs \<longrightarrow>
          AvailableStart r =
            fillna 0 (QOH s) - fillna 0 (QCHold_QCI s) - fillna 0 (QCHold_QCH s))"
proof (intro conjI impI)
  show m: "avail_map (pre @ s # post) (py_strip (Article s)) =
           Some (fillna 0 (QOH s) - fillna 0 (QCHold_QCI s) - fillna 0 (QCHold_QCH s))"
    using avail_map_last [OF assms] by (simp add: Avail_def)
  assume f: "filter (\<lambda>r. article_of r = py_strip (Article s))
           (allocate_by_delivery to_datetime demands (pre @ s # post)) = r # rs"
  then have "demands \<noteq> []" by (auto simp: allocate_by_delivery_def)
  with f have "AvailableStart r = get0 (avail_map (pre @ s # post)) (py_strip (Article s))"
    by (auto simp: allocate_by_delivery_def dest: alloc_loop_first_start)
  then show "AvailableStart r =
           fillna 0 (QOH s) - fillna 0 (QCHold_QCI s) - fillna 0 (QCHold_QCH s)"
    by (simp add: m get0_def)
qed

theorem available_quantity_of_stock_record_witness:
  "py_strip (Article ex_stock_negative) \<notin> (\<lambda>t. py_strip (Article t)) ` set [] \<and>
   avail_map ([] @ ex_stock_negative # []) (py_strip (Article ex_stock_negative)) = Some (- 5) \<and>
   filter (\<lambda>r. article_of r = py_strip (Article ex_stock_negative))
     (allocate_by_delivery ex_to_datetime [ex_line1, ex_line2] ([] @ ex_stock_negative # []))
     = ex_rows_negative \<and>
   AvailableStart (hd ex_rows_negative) = - 5"
proof -
  have h: "py_strip (Article ex_stock_negative) \<notin> (\<lambda>t. py_strip (Article t)) ` set []"
    by simp
  have f: "filter (\<lambda>r. article_of r = py_strip (Article ex_stock_negative))
     (allocate_by_delivery ex_to_datetime [ex_line1, ex_line2] ([] @ ex_stock_negative # []))
     = hd ex_rows_negative # tl ex_rows_negative"
    by (simp add: allocate_by_delivery_def ex_sorted' ex_negative_loop)
       (simp add: ex_rows_negative_def article_of_def ex_line1_def ex_line2_def
          ex_stock_negative_def)
  have v: "fillna 0 (QOH ex_stock_negative) - fillna 0 (QCHold_QCI ex_stock_negative)
            - fillna 0 (QCHold_QCH ex_stock_negative) = - 5"
    by (simp add: ex_stock_negative_def fillna_def)
  from available_quantity_of_stock_record
         [OF h, of "[]" ex_to_datetime "[ex_line1, ex_line2]"
            "hd ex_rows_negative" "tl ex_rows_negative"]
  show ?thesis using h f v by (simp add: ex_rows_negative_def)
qed

theorem available_quantity_counterexample:
  "avail_map [ex_stock_allocated] (py_strip (Article ex_stock_allocated))
     \<noteq> Some (spec_available ex_stock_allocated)"
  by (simp add: avail_map_def ex_stock_allocated_def Avail_def spec_available_def fillna_def)

text \<open>
  C10. When the availability of an article in the snapshot is negative (and no record
  of the article needs a negative quantity: every demand record needs at least one
  unit), the first row processed for the article is allocated that negative value and
  is short by more than it needs; the remaining quantity of the article is then zero,
  so every later row of the article starts from zero and is allocated zero, and zero
  is what remains at the end.
\<close>

theorem negative_availability:
  assumes "get0 (avail_map stock) a < 0"
    and "\<forall>d \<in> set demands. py_strip (ComponentArticle d) = a \<longrightarrow> 0 \<le> NeedQty d"
    and "filter (\<lambda>r. article_of r = a) (allocate_by_delivery to_datetime demands stock) = r # rs"
  shows "Allocated r = get0 (avail_map stock) a \<and> NeedQty (Demand r) < Short r \<and>
         (\<forall>r' \<in> set rs. AvailableStart r' = 0 \<and> Allocated r' = 0) \<and>
         get0 (snd (alloc_loop (avail_map stock) (sort_values to_datetime demands))) a = 0"
proof -
  from assms(3) have ne: "demands \<noteq> []" by (auto simp: allocate_by_delivery_def)
  have needs: "\<forall>d \<in> set (sort_values to_datetime demands).
      py_strip (ComponentArticle d) = a \<longrightarrow> 0 \<le> NeedQty d"
    using assms(2) by (simp add: set_sort_values)
  have "filter (\<lambda>r. article_of r = a)
      (fst (alloc_loop (avail_map stock) (sort_values to_datetime demands))) = r # rs"
    using assms(3) ne by (simp add: allocate_by_delivery_def)
  with assms(1) needs show ?thesis by (rule alloc_loop_negative)
qed

theorem negative_availability_witness:
  "get0 (avail_map [ex_stock_negative]) ''A'' < 0 \<and>
   0 \<le> NeedQty ex_line1 \<and> 0 \<le> NeedQty ex_line2 \<and>
   filter (\<lambda>r. article_of r = ''A'')
     (allocate_by_delivery ex_to_datetime [ex_line1, ex_line2] [ex_stock_negative])
     = hd ex_rows_negative # tl ex_rows_negative \<and>
   Allocated (hd ex_rows_negative) = - 5 \<and>
   NeedQty (Demand (hd ex_rows_negative)) < Short (hd ex_rows_negative) \<and>
   AvailableStart (ex_rows_negative ! 1) = 0 \<and> Allocated (ex_rows_negative ! 1) = 0 \<and>
   get0 (snd (alloc_loop (avail_map [ex_stock_negative])
     (sort_values ex_to_datetime [ex_line1, ex_line2]))) ''A'' = 0"
proof -
  have h1: "get0 (avail_map [ex_stock_negative]) ''A'' < 0"
    by (simp add: get0_def ex_negative_avail)
  have n: "0 \<le> NeedQty ex_line1" "0 \<le> NeedQty ex_line2"
    by (simp_all add: ex_line1_def ex_line2_def)
  then have h2: "\<forall>d \<in> set [ex_line1, ex_line2].
      py_strip (ComponentArticle d) = ''A'' \<longrightarrow> 0 \<le> NeedQty d"
    by simp
  have h3: "filter (\<lambda>r. article_of r = ''A'')
     (allocate_by_delivery ex_to_datetime [ex_line1, ex_line2] [ex_stock_negative])
     = hd ex_rows_negative # tl ex_rows_negative"
    by (simp add: allocate_by_delivery_def ex_sorted' ex_negative_loop)
       (simp add: ex_rows_negative_def article_of_def ex_line1_def ex_line2_def
          py_strip_def is_space_def)
  have t: "ex_rows_negative ! 1 \<in> set (tl ex_rows_negative)"
    by (simp add: ex_rows_negative_def)
  from negative_availability [OF h1 h2 h3] h1 n h3 t show ?thesis
    by (simp add: get0_def ex_negative_avail)
qed


lemma sort_values_sorted:
  "sorted_wrt (spec_precedes to_datetime) (sort_values to_datetime ds)"
proof -
  have "sorted (map (demand_key to_datetime) (sort_key (demand_key to_datetime) ds))"
    by (rule sorted_sort_key)
  then show ?thesis
    by (simp add: sort_values_def sorted_map spec_precedes_iff [abs_def])
qed

lemma spec_tie_iff:
  "spec_precedes to_datetime d x \<and> spec_precedes to_datetime x d \<longleftrightarrow>
     demand_key to_datetime d = demand_key to_datetime x"
  by (auto simp: spec_precedes_iff)

lemma sort_values_stable:
  "filter (\<lambda>d. spec_precedes to_datetime d x \<and> spec_precedes to_datetime x d)
     (sort_values to_datetime ds) =
   filter (\<lambda>d. spec_precedes to_datetime d x \<and> spec_precedes to_datetime x d) ds"
  by (simp add: spec_tie_iff sort_values_def sort_key_stable)

lemma allocated_to_Cons:
  "allocated_to a (r # rs) = (if article_of r = a then Allocated r else 0) + allocated_to a rs"
  by (simp add: allocated_to_def)

lemma alloc_loop_running:
  "i < length ds \<Longrightarrow>
     AvailableStart (fst (alloc_loop rem ds) ! i) =
       get0 rem (article_of (fst (alloc_loop rem ds) ! i))
         - allocated_to (article_of (fst (alloc_loop rem ds) ! i)) (take i (fst (alloc_loop rem ds)))"
proof (induction ds arbitrary: rem i)
  case Nil
  then show ?case by simp
next
  case (Cons d ds)
  show ?case
  proof (cases i)
    case 0
    then show ?thesis
      by (simp add: alloc_loop_Cons alloc_step_row article_of_def allocated_to_def)
  next
    case (Suc j)
    let ?rem' = "snd (alloc_step rem d)"
    let ?r = "fst (alloc_loop ?rem' ds) ! j"
    from Suc Cons.prems have "j < length ds" by simp
    then have IH: "AvailableStart ?r =
        get0 ?rem' (article_of ?r) - allocated_to (article_of ?r) (take j (fst (alloc_loop ?rem' ds)))"
      by (rule Cons.IH)
    have "get0 ?rem' (article_of ?r) =
        get0 rem (article_of ?r)
          - (if article_of (fst (alloc_step rem d)) = article_of ?r
             then Allocated (fst (alloc_step rem d)) else 0)"
      by (auto simp: alloc_step_remaining alloc_step_row article_of_def)
    with IH show ?thesis using Suc
      by (simp add: alloc_loop_Cons allocated_to_Cons)
  qed
qed

lemma length_alloc_loop: "length (fst (alloc_loop rem ds)) = length ds"
  using alloc_loop_demands [of rem ds] by (metis length_map)

text \<open>
  C4. The rows of the output are the demand records in the order of the specification:
  sorted by delivery date with the dates that do not parse last, then by PO-line key,
  then by article code; the sort rearranges the records without adding or losing one,
  and records that tie on all three keep the order of the input. The rows are processed
  in that order: each starts from the snapshot availability of its article less what
  the rows before it were allocated. In the example, line 1 is allocated 60 and short
  0 (OK), line 2 is allocated 40 and short 20 (SHORT), in whichever order the two
  records are given.
\<close>

theorem allocation_order:
  "sorted_wrt (spec_precedes to_datetime)
     (map Demand (allocate_by_delivery to_datetime demands stock)) \<and>
   mset (map Demand (allocate_by_delivery to_datetime demands stock)) = mset demands \<and>
   filter (\<lambda>d. spec_precedes to_datetime d x \<and> spec_precedes to_datetime x d)
       (map Demand (allocate_by_delivery to_datetime demands stock)) =
     filter (\<lambda>d. spec_precedes to_datetime d x \<and> spec_precedes to_datetime x d) demands \<and>
   (\<forall>i < length (allocate_by_delivery to_datetime demands stock).
      AvailableStart (allocate_by_delivery to_datetime demands stock ! i) =
        get0 (avail_map stock) (article_of (allocate_by_delivery to_datetime demands stock ! i))
          - allocated_to (article_of (allocate_by_delivery to_datetime demands stock ! i))
              (take i (allocate_by_delivery to_datetime demands stock))) \<and>
   allocate_by_delivery ex_to_datetime [ex_line1, ex_line2] ex_stock =
     [\<lparr>Demand = ex_line1, AvailableStart = 100, Allocated = 60, Short = 0, Status = ''OK''\<rparr>,
      \<lparr>Demand = ex_line2, AvailableStart = 40, Allocated = 40, Short = 20, Status = ''SHORT''\<rparr>] \<and>
   allocate_by_delivery ex_to_datetime [ex_line2, ex_line1] ex_stock =
     [\<lparr>Demand = ex_line1, AvailableStart = 100, Allocated = 60, Short = 0, Status = ''OK''\<rparr>,
      \<lparr>Demand = ex_line2, AvailableStart = 40, Allocated = 40, Short = 20, Status = ''SHORT''\<rparr>]"
proof -
  have ex: "allocate_by_delivery ex_to_datetime [ex_line1, ex_line2] ex_stock =
     [\<lparr>Demand = ex_line1, AvailableStart = 100, Allocated = 60, Short = 0, Status = ''OK''\<rparr>,
      \<lparr>Demand = ex_line2, AvailableStart = 40, Allocated = 40, Short = 20, Status = ''SHORT''\<rparr>]"
    "allocate_by_delivery ex_to_datetime [ex_line2, ex_line1] ex_stock =
     [\<lparr>Demand = ex_line1, AvailableStart = 100, Allocated = 60, Short = 0, Status = ''OK''\<rparr>,
      \<lparr>Demand = ex_line2, AvailableStart = 40, Allocated = 40, Short = 20, Status = ''SHORT''\<rparr>]"
    by (simp_all only: ex_allocation ex_allocation_reversed_input ex_rows_def)
  show ?thesis
  proof (cases "demands = []")
  case True
  have "allocate_by_delivery to_datetime demands stock = []"
    using True by (simp add: allocate_by_delivery_def)
  then show ?thesis using True ex by simp
next
  case False
  let ?out = "fst (alloc_loop (avail_map stock) (sort_values to_datetime demands))"
  have out: "allocate_by_delivery to_datetime demands stock = ?out"
    using False by (simp add: allocate_by_delivery_def)
  have dem: "map Demand ?out = sort_values to_datetime demands"
    by (rule alloc_loop_demands)
  have 1: "sorted_wrt (spec_precedes to_datetime) (map Demand ?out)"
    unfolding dem by (rule sort_values_sorted)
  have 2: "mset (map Demand ?out) = mset demands"
    unfolding dem by (simp add: sort_values_def)
  have 3: "filter (\<lambda>d. spec_precedes to_datetime d x \<and> spec_precedes to_datetime x d)
       (map Demand ?out) =
     filter (\<lambda>d. spec_precedes to_datetime d x \<and> spec_precedes to_datetime x d) demands"
    unfolding dem by (rule sort_values_stable)
  have 4: "\<forall>i < length ?out. AvailableStart (?out ! i) =
        get0 (avail_map stock) (article_of (?out ! i))
          - allocated_to (article_of (?out ! i)) (take i ?out)"
    by (simp add: length_alloc_loop alloc_loop_running)
  show ?thesis
    unfolding out using 1 2 3 4 ex by blast
qed
qed

theorem allocation_order_witness:
  "(1::nat) < length (allocate_by_delivery ex_to_datetime [ex_line2, ex_line1] ex_stock) \<and>
   AvailableStart (allocate_by_delivery ex_to_datetime [ex_line2, ex_line1] ex_stock ! 1) =
     get0 (avail_map ex_stock) ''A'' - 60"
proof -
  have len: "(1::nat) < length (allocate_by_delivery ex_to_datetime [ex_line2, ex_line1] ex_stock)"
    unfolding ex_allocation_reversed_input by (simp add: ex_rows_def)
  have art: "article_of (allocate_by_delivery ex_to_datetime [ex_line2, ex_line1] ex_stock ! 1) = ''A''"
    unfolding ex_allocation_reversed_input
    by (simp add: ex_rows_def article_of_def ex_line2_def py_strip_def is_space_def)
  have before: "allocated_to ''A''
      (take 1 (allocate_by_delivery ex_to_datetime [ex_line2, ex_line1] ex_stock)) = 60"
    unfolding ex_allocation_reversed_input
    by (simp add: ex_rows_def allocated_to_def article_of_def ex_line1_def py_strip_def is_space_def)
  from allocation_order [of ex_to_datetime "[ex_line2, ex_line1]" ex_stock ex_line1]
  have "\<forall>i < length (allocate_by_delivery ex_to_datetime [ex_line2, ex_line1] ex_stock).
      AvailableStart (allocate_by_delivery ex_to_datetime [ex_line2, ex_line1] ex_stock ! i) =
        get0 (avail_map ex_stock)
            (article_of (allocate_by_delivery ex_to_datetime [ex_line2, ex_line1] ex_stock ! i))
          - allocated_to (article_of (allocate_by_delivery ex_to_datetime [ex_line2, ex_line1] ex_stock ! i))
              (take i (allocate_by_delivery ex_to_datetime [ex_line2, ex_line1] ex_stock))"
    by blast
  with len have "AvailableStart (allocate_by_delivery ex_to_datetime [ex_line2, ex_line1] ex_stock ! 1) =
        get0 (avail_map ex_stock)
            (article_of (allocate_by_delivery ex_to_datetime [ex_line2, ex_line1] ex_stock ! 1))
          - allocated_to (article_of (allocate_by_delivery ex_to_datetime [ex_line2, ex_line1] ex_stock ! 1))
              (take 1 (allocate_by_delivery ex_to_datetime [ex_line2, ex_line1] ex_stock))"
    by blast
  then show ?thesis using len by (simp only: art before simp_thms)
qed


section \<open>The manual override\<close>


lemma ex_small_allocation:
  "allocate_by_delivery ex_to_datetime [ex_big1, ex_big2] ex_stock_1000 = ex_alloc_small"
  by (simp add: allocate_by_delivery_def sort_values_def demand_key_def ex_to_datetime_def
      ex_big1_def ex_big2_def alloc_loop_Cons alloc_step_def Let_def
      get0_def avail_map_def ex_stock_1000_def Avail_def fillna_def py_strip_def is_space_def
      status_of_def ex_alloc_small_def)

lemma ex_small_short: "''line2'' \<in> small_short_pos ex_alloc_small"
  by (simp add: small_short_pos_def supported_pos_def short_by_po_qty_def ex_alloc_small_def
      ex_big1_def ex_big2_def)

lemma ex_not_low: "''line2'' \<notin> low_avail_pos ex_alloc_small"
  by (simp add: low_avail_pos_def ex_alloc_small_def ex_big1_def ex_big2_def)

lemma ex_short_by_po: "short_by_po ex_alloc_small ''line2'' = Some ''SHORT''"
  by (simp add: short_by_po_def ex_alloc_small_def ex_big1_def ex_big2_def)

lemma ex_compute: "compute_row ex_detail ex_alloc_small ex_view_line2 = ex_computed_line2"
  by (simp add: compute_row_def Let_def ex_short_by_po ex_detail_def ex_view_line2_def
        flag_for_row_def ex_small_short ex_computed_line2_def py_strip_def is_space_def)

lemma ex_override:
  "apply_component_support_overrides True [ex_computed_line2] [(''line2'', True)] = [ex_green ''line2'']"
  by (simp add: apply_component_support_overrides_def override_mask_def key_map_def
      ex_computed_line2_def ex_green_def py_strip_def is_space_def flag_purple_def)

lemma purple_neq: "flag_purple \<noteq> flag_green" "flag_purple \<noteq> flag_red" "flag_purple \<noteq> []"
  by (simp_all add: flag_purple_def flag_green_def flag_red_def)

lemma apply_length:
  "length (apply_component_support_overrides fc df ovs) = length df"
  by (simp add: apply_component_support_overrides_def)

lemma apply_nth:
  "i < length df \<Longrightarrow> apply_component_support_overrides True df ovs ! i =
     (if override_mask True ovs (df ! i)
      then (df ! i)\<lparr>vShort_Detail := ''Component Supported'', vStatus := ''OK'', vFlag := flag_green\<rparr>
      else df ! i)"
  by (auto simp: apply_component_support_overrides_def Let_def override_mask_def key_map_def)

text \<open>
  C5 (amended). The override applies exactly to the rows whose flag is the purple
  square, the flag the view gives to a line with a small shortfall as well as to a line
  with low remaining availability: such a row with a stored override becomes fully
  supported (green, status OK, detail "Component Supported"). A row with any other
  flag keeps its flag, status and detail; this covers every row that is neither a small
  shortfall nor a line of low availability without shortfall.
\<close>

theorem override_only_purple:
  "length (apply_component_support_overrides True df overrides) = length df \<and>
   (\<forall>i < length df.
      (py_strip (vFlag (df ! i)) \<noteq> flag_purple \<longrightarrow>
         apply_component_support_overrides True df overrides ! i = df ! i) \<and>
      (apply_component_support_overrides True df overrides ! i \<noteq> df ! i \<longrightarrow>
         py_strip (vFlag (df ! i)) = flag_purple \<and>
         key_map overrides (py_strip (vPO_Line (df ! i))) = Some True \<and>
         apply_component_support_overrides True df overrides ! i =
           (df ! i)\<lparr>vShort_Detail := ''Component Supported'', vStatus := ''OK'',
                    vFlag := flag_green\<rparr>) \<and>
      (\<forall>small_short low_avail.
         vFlag (df ! i) = flag_for_row small_short low_avail (df ! i) \<and>
         py_strip (vPO_Line (df ! i)) \<notin> small_short \<and>
         (vStatus (df ! i) = ''SHORT'' \<or> py_strip (vPO_Line (df ! i)) \<notin> low_avail) \<longrightarrow>
         apply_component_support_overrides True df overrides ! i = df ! i))"
proof (intro conjI allI impI)
  show "length (apply_component_support_overrides True df overrides) = length df"
    by (rule apply_length)
next
  fix i assume "i < length df" "py_strip (vFlag (df ! i)) \<noteq> flag_purple"
  then show "apply_component_support_overrides True df overrides ! i = df ! i"
    by (simp add: apply_nth override_mask_def)
next
  fix i assume i: "i < length df"
    and ne: "apply_component_support_overrides True df overrides ! i \<noteq> df ! i"
  then have m: "override_mask True overrides (df ! i)"
    by (simp add: apply_nth split: if_splits)
  then show "py_strip (vFlag (df ! i)) = flag_purple"
    by (simp add: override_mask_def)
  from m show "key_map overrides (py_strip (vPO_Line (df ! i))) = Some True"
    by (auto simp: override_mask_def split: option.splits)
  from m i show "apply_component_support_overrides True df overrides ! i =
           (df ! i)\<lparr>vShort_Detail := ''Component Supported'', vStatus := ''OK'',
                    vFlag := flag_green\<rparr>"
    by (simp add: apply_nth)
next
  fix i small_short low_avail
  assume i: "i < length df"
    and f: "vFlag (df ! i) = flag_for_row small_short low_avail (df ! i) \<and>
         py_strip (vPO_Line (df ! i)) \<notin> small_short \<and>
         (vStatus (df ! i) = ''SHORT'' \<or> py_strip (vPO_Line (df ! i)) \<notin> low_avail)"
  then have "vFlag (df ! i) \<in> {flag_red, flag_green, []}"
    by (auto simp: flag_for_row_def Let_def)
  then have "py_strip (vFlag (df ! i)) \<noteq> flag_purple"
    by (auto simp: py_strip_def is_space_def flag_purple_def flag_green_def flag_red_def)
  with i show "apply_component_support_overrides True df overrides ! i = df ! i"
    by (simp add: apply_nth override_mask_def)
qed


theorem override_only_purple_witness:
  "(0::nat) < length [ex_computed_line2, ex_red] \<and>
   apply_component_support_overrides True [ex_computed_line2, ex_red] ex_overrides ! 0
     \<noteq> [ex_computed_line2, ex_red] ! 0 \<and>
   py_strip (vFlag ([ex_computed_line2, ex_red] ! 0)) = flag_purple \<and>
   apply_component_support_overrides True [ex_computed_line2, ex_red] ex_overrides ! 0
     = ex_green ''line2'' \<and>
   (1::nat) < length [ex_computed_line2, ex_red] \<and>
   py_strip (vFlag ([ex_computed_line2, ex_red] ! 1)) \<noteq> flag_purple \<and>
   vFlag ([ex_computed_line2, ex_red] ! 1) = flag_for_row {} {} ([ex_computed_line2, ex_red] ! 1) \<and>
   key_map ex_overrides (py_strip (vPO_Line ([ex_computed_line2, ex_red] ! 1))) = Some True \<and>
   apply_component_support_overrides True [ex_computed_line2, ex_red] ex_overrides ! 1
     = [ex_computed_line2, ex_red] ! 1"
proof -
  let ?df = "[ex_computed_line2, ex_red]"
  have len: "(0::nat) < length ?df" "(1::nat) < length ?df" by simp_all
  have ch: "apply_component_support_overrides True ?df ex_overrides ! 0 \<noteq> ?df ! 0"
    by (simp add: apply_component_support_overrides_def override_mask_def key_map_def
        ex_overrides_def ex_computed_line2_def py_strip_def is_space_def flag_purple_def
        flag_green_def)
  have red: "py_strip (vFlag (?df ! 1)) \<noteq> flag_purple"
    by (simp add: ex_red_def py_strip_def is_space_def flag_purple_def flag_red_def)
  have fl: "vFlag (?df ! 1) = flag_for_row {} {} (?df ! 1)"
    by (simp add: ex_red_def flag_for_row_def)
  have ov: "key_map ex_overrides (py_strip (vPO_Line (?df ! 1))) = Some True"
    by (simp add: key_map_def ex_overrides_def ex_red_def py_strip_def is_space_def)
  have g: "(?df ! 0)\<lparr>vShort_Detail := ''Component Supported'', vStatus := ''OK'',
      vFlag := flag_green\<rparr> = ex_green ''line2''"
    by (simp add: ex_computed_line2_def ex_green_def)
  from override_only_purple [of ?df ex_overrides] len ch red
  have "py_strip (vFlag (?df ! 0)) = flag_purple"
    and "apply_component_support_overrides True ?df ex_overrides ! 0 =
      (?df ! 0)\<lparr>vShort_Detail := ''Component Supported'', vStatus := ''OK'',
        vFlag := flag_green\<rparr>"
    and "apply_component_support_overrides True ?df ex_overrides ! 1 = ?df ! 1"
    by blast+
  then show ?thesis using len ch red fl ov g by (simp only: simp_thms)
qed

theorem override_small_shortfall_counterexample:
  "''line2'' \<in> small_short_pos (allocate_by_delivery ex_to_datetime [ex_big1, ex_big2] ex_stock_1000) \<and>
   ''line2'' \<notin> low_avail_pos (allocate_by_delivery ex_to_datetime [ex_big1, ex_big2] ex_stock_1000) \<and>
   compute_row ex_detail (allocate_by_delivery ex_to_datetime [ex_big1, ex_big2] ex_stock_1000)
     ex_view_line2 = ex_computed_line2 \<and>
   vStatus ex_computed_line2 = ''SHORT'' \<and>
   apply_component_support_overrides True [ex_computed_line2] [(''line2'', True)]
     = [ex_green ''line2''] \<and>
   vFlag (ex_green ''line2'') \<noteq> vFlag ex_computed_line2 \<and>
   vStatus (ex_green ''line2'') \<noteq> vStatus ex_computed_line2 \<and>
   vShort_Detail (ex_green ''line2'') \<noteq> vShort_Detail ex_computed_line2"
  unfolding ex_small_allocation
  using ex_small_short ex_not_low ex_compute ex_override
  by (simp add: ex_computed_line2_def ex_green_def flag_purple_def flag_green_def)

section \<open>Re-validation of the override\<close>

lemma dropWhile_id: "xs = [] \<or> \<not> P (hd xs) \<Longrightarrow> dropWhile P xs = xs"
  by (cases xs) auto

lemma py_strip_clean:
  "py_strip s = [] \<or> (\<not> is_space (hd (py_strip s)) \<and> \<not> is_space (last (py_strip s)))"
proof (cases "py_strip s = []")
  case True
  then show ?thesis by simp
next
  case False
  let ?t = "dropWhile is_space s"
  let ?u = "dropWhile is_space (rev ?t)"
  have u: "?u \<noteq> []" using False by (simp add: py_strip_def)
  have t: "?t \<noteq> []"
  proof
    assume e: "?t = []"
    have "?u = []" unfolding e by simp
    with u show False by (simp only: not_True_eq_False)
  qed
  have hu: "\<not> is_space (hd ?u)" using u by (rule hd_dropWhile)
  have ht: "\<not> is_space (hd ?t)" using t by (rule hd_dropWhile)
  have "rev ?t = takeWhile is_space (rev ?t) @ ?u" by simp
  then have "?t = rev ?u @ rev (takeWhile is_space (rev ?t))"
    by (metis rev_append rev_rev_ident)
  then have "hd ?t = hd (rev ?u)" using u by (metis hd_append2 rev_is_Nil_conv)
  then have "\<not> is_space (hd (py_strip s))" using ht by (simp add: py_strip_def)
  moreover have "\<not> is_space (last (py_strip s))"
    using hu u by (simp add: py_strip_def last_rev)
  ultimately show ?thesis by simp
qed

lemma py_strip_idem: "py_strip (py_strip s) = py_strip s"
proof (cases "py_strip s = []")
  case True
  have "py_strip [] = []" by (simp add: py_strip_def)
  with True show ?thesis by simp
next
  case False
  with py_strip_clean [of s]
  have h: "\<not> is_space (hd (py_strip s))" and l: "\<not> is_space (last (py_strip s))" by auto
  have 1: "dropWhile is_space (py_strip s) = py_strip s"
    using h by (simp add: dropWhile_id)
  have "hd (rev (py_strip s)) = last (py_strip s)" using False by (simp add: hd_rev)
  then have 2: "dropWhile is_space (rev (py_strip s)) = rev (py_strip s)"
    using l by (simp add: dropWhile_id)
  show ?thesis
    by (subst py_strip_def) (simp add: 1 2)
qed

lemma dict_get_update:
  "dict_get (AList.update k v d) k' = (if k' = k then v else dict_get d k')"
  by (simp add: dict_get_def update_conv')

text \<open>
  What a run does to the stored overrides. On the details page of a PO line, an
  override of that line that is stored as true is set to false when the flag of the
  line in the view is not the purple square; the overrides of all other lines stay as
  they are. A run that renders another page changes no override.
\<close>

lemma details_page_clears_selected_only:
  "(py_strip selected \<noteq> [] \<and>
    filter (\<lambda>r. vPO_Line r = py_strip selected) df_show = row # rest \<and>
    dict_get support_overrides (py_strip selected) \<and>
    py_strip (vFlag row) \<noteq> flag_purple \<longrightarrow>
      \<not> dict_get (run_support_overrides ''details'' selected df_show support_overrides)
          (py_strip selected)) \<and>
   (k \<noteq> py_strip selected \<longrightarrow>
      map_of (run_support_overrides ''details'' selected df_show support_overrides) k
        = map_of support_overrides k) \<and>
   (page \<noteq> ''details'' \<longrightarrow>
      run_support_overrides page selected df_show support_overrides = support_overrides)"
proof (intro conjI impI)
  assume a: "py_strip selected \<noteq> [] \<and>
    filter (\<lambda>r. vPO_Line r = py_strip selected) df_show = row # rest \<and>
    dict_get support_overrides (py_strip selected) \<and>
    py_strip (vFlag row) \<noteq> flag_purple"
  then have "run_support_overrides ''details'' selected df_show support_overrides =
      AList.update (py_strip selected) False support_overrides"
    by (simp add: run_support_overrides_def render_details_page_def Let_def py_strip_idem)
  then show "\<not> dict_get (run_support_overrides ''details'' selected df_show support_overrides)
          (py_strip selected)"
    by (simp add: dict_get_update)
next
  assume "k \<noteq> py_strip selected"
  then show "map_of (run_support_overrides ''details'' selected df_show support_overrides) k
        = map_of support_overrides k"
    by (simp add: run_support_overrides_def render_details_page_def Let_def py_strip_idem
        update_conv' split: list.splits)
next
  assume "page \<noteq> ''details''"
  then show "run_support_overrides page selected df_show support_overrides = support_overrides"
    by (simp add: run_support_overrides_def)
qed

lemma ex_stale_details:
  "run_support_overrides ''details'' ''P2'' ex_view_green ex_stale = [(''P1'', True), (''P2'', False)]"
  by (simp add: run_support_overrides_def render_details_page_def Let_def py_strip_def
      is_space_def ex_view_green_def ex_green_def ex_stale_def dict_get_def flag_purple_def
      flag_green_def)

lemma ex_stale_not_applied:
  "apply_component_support_overrides True ex_view_green ex_stale = ex_view_green"
  by (simp add: apply_component_support_overrides_def override_mask_def ex_view_green_def
      ex_green_def ex_stale_def py_strip_def is_space_def flag_purple_def flag_green_def)

text \<open>
  C6. The specification asks that every run re-validates each stored override, so that
  an override stored as true for a PO line that is not of low remaining availability
  is cleared by that run. The code does not do so. With overrides stored as true for
  the lines P1 and P2, both fully supported (green, so that the override applies to
  neither), a run that renders the main page leaves both overrides true, and a run
  that renders the details page of P2 clears the override of P2 and leaves that of P1
  true.
\<close>

theorem stale_override_survives_run:
  "dict_get ex_stale ''P1'' \<and>
   py_strip (vFlag (ex_green ''P1'')) \<noteq> flag_purple \<and>
   apply_component_support_overrides True ex_view_green ex_stale = ex_view_green \<and>
   run_support_overrides ''main'' [] ex_view_green ex_stale = ex_stale \<and>
   run_support_overrides ''details'' ''P2'' ex_view_green ex_stale
     = [(''P1'', True), (''P2'', False)] \<and>
   dict_get (run_support_overrides ''details'' ''P2'' ex_view_green ex_stale) ''P1''"
  unfolding ex_stale_details ex_stale_not_applied
  by (simp add: run_support_overrides_def ex_stale_def dict_get_def ex_green_def
      py_strip_def is_space_def flag_purple_def flag_green_def)

text \<open>
  The re-validation has a second defect: the details page reads the flag of the view to
  which the override has already been applied. A line whose purple flag the override
  has turned green is therefore seen as not purple, and its override is cleared the
  next time its details page is rendered, although the line is as it was.
\<close>

lemma override_cleared_after_it_is_applied:
  "run_support_overrides ''details'' ''line2''
     (apply_component_support_overrides True [ex_computed_line2] [(''line2'', True)])
     [(''line2'', True)] = [(''line2'', False)]"
  unfolding ex_override
  by (simp add: run_support_overrides_def render_details_page_def Let_def py_strip_def
      is_space_def ex_green_def dict_get_def flag_purple_def flag_green_def)

section \<open>Properties of change detection\<close>

lemma field_changes_same:
  "field_changes sum_avail run_ts cur prev k row row c = []"
  by (simp add: field_changes_def)

lemma compute_change_log_same:
  "compute_change_log sum_avail view (Some view) run_ts = []"
  by (simp add: compute_change_log_def Let_def field_changes_same split: option.splits)

lemma ex_tracked: "tracked_view (ex_frame qty) = ex_frame qty"
  by (auto simp: tracked_view_def select_columns_def ex_frame_def CHANGE_VIEW_COLS_def
      TRACK_COLS_def fun_eq_iff)

lemma ex_change_detected:
  "compute_change_log (\<lambda>s. 0) (ex_frame ''12'') (Some (ex_frame ''10'')) ts = [ex_change ts]"
  by (simp add: compute_change_log_def Let_def ex_frame_def frame_empty_def select_columns_def
      CHANGE_VIEW_COLS_def TRACK_COLS_def row_key_def py_str_def py_strip_def is_space_def
      field_changes_def safe_str_def label_change_def ex_change_def)

lemma roll_forward_unchanged_view:
  assumes "last_view_snapshot st = Some (tracked_view df_show)"
  shows "CHANGE_LOG_FILE (roll_forward io sum_avail ts df_show st) = CHANGE_LOG_FILE st"
    and "CHANGE_LOG_pkl (roll_forward io sum_avail ts df_show st) = CHANGE_LOG_pkl st"
    and "change_history (roll_forward io sum_avail ts df_show st) = load_change_history io st"
  using assms
  by (simp_all add: roll_forward_def Let_def compute_change_log_same append_change_history_def
      persist_view_snapshot_def load_change_history_def)

text \<open>
  C9. Computing the change log of a view against itself gives no change record, for
  every view and time stamp. So a run whose stored snapshot is the view it computes
  appends nothing: both files of the history are as they were, whatever happens to the
  reads and writes of that run, and the session shows the history that it reads.
\<close>

theorem change_detection_idempotent:
  "compute_change_log sum_avail view (Some view) run_ts = [] \<and>
   (last_view_snapshot st = Some (tracked_view df_show) \<longrightarrow>
      CHANGE_LOG_FILE (roll_forward io sum_avail ts df_show st) = CHANGE_LOG_FILE st \<and>
      CHANGE_LOG_pkl (roll_forward io sum_avail ts df_show st) = CHANGE_LOG_pkl st \<and>
      change_history (roll_forward io sum_avail ts df_show st) = load_change_history io st)"
  using compute_change_log_same roll_forward_unchanged_view by blast

text \<open>
  The snapshot is the view of the run before when that run could write the parquet
  file and read it back; then two runs in succession on one view append nothing in the
  second.
\<close>

lemma roll_forward_snapshot:
  "view_parquet_write io \<Longrightarrow> view_parquet_read io \<Longrightarrow>
     last_view_snapshot (roll_forward io sum_avail ts df_show st) = Some (tracked_view df_show)"
  by (simp add: roll_forward_def Let_def persist_view_snapshot_def load_last_view_snapshot_def)

lemma second_run_appends_nothing:
  assumes "view_parquet_write io1" and "view_parquet_read io1"
  shows "CHANGE_LOG_FILE (roll_forward io2 sum_avail ts2 df_show
            (roll_forward io1 sum_avail ts1 df_show st))
          = CHANGE_LOG_FILE (roll_forward io1 sum_avail ts1 df_show st)"
    and "CHANGE_LOG_pkl (roll_forward io2 sum_avail ts2 df_show
            (roll_forward io1 sum_avail ts1 df_show st))
          = CHANGE_LOG_pkl (roll_forward io1 sum_avail ts1 df_show st)"
  using roll_forward_snapshot [OF assms] by (simp_all add: roll_forward_unchanged_view)

lemma ex_first_run:
  "roll_forward io_ok (\<lambda>s. 0) 7 (ex_frame ''12'') ex_store =
     \<lparr>LAST_VIEW_FILE = Some (ex_frame ''12''), LAST_VIEW_pkl = None,
      CHANGE_LOG_FILE = Some [ex_change 7], CHANGE_LOG_pkl = None,
      last_view_snapshot = Some (ex_frame ''12''), change_history = [ex_change 7]\<rparr>"
  by (simp add: roll_forward_def Let_def ex_store_def ex_tracked ex_change_detected
      append_change_history_def load_change_history_def persist_view_snapshot_def
      load_last_view_snapshot_def io_ok_def)

theorem change_detection_idempotent_witness:
  "last_view_snapshot (roll_forward io_ok (\<lambda>s. 0) 7 (ex_frame ''12'') ex_store)
     = Some (tracked_view (ex_frame ''12'')) \<and>
   compute_change_log (\<lambda>s. 0) (ex_frame ''12'') (Some (ex_frame ''12'')) 8 = [] \<and>
   CHANGE_LOG_FILE (roll_forward io_view_parquet_fails (\<lambda>s. 0) 8 (ex_frame ''12'')
       (roll_forward io_ok (\<lambda>s. 0) 7 (ex_frame ''12'') ex_store)) = Some [ex_change 7] \<and>
   CHANGE_LOG_pkl (roll_forward io_view_parquet_fails (\<lambda>s. 0) 8 (ex_frame ''12'')
       (roll_forward io_ok (\<lambda>s. 0) 7 (ex_frame ''12'') ex_store)) = None"
proof -
  let ?st = "roll_forward io_ok (\<lambda>s. 0) 7 (ex_frame ''12'') ex_store"
  have h: "last_view_snapshot ?st = Some (tracked_view (ex_frame ''12''))"
    by (simp add: ex_first_run ex_tracked)
  have f: "CHANGE_LOG_FILE ?st = Some [ex_change 7]" "CHANGE_LOG_pkl ?st = None"
    by (simp_all add: ex_first_run)
  from change_detection_idempotent
         [of "\<lambda>s. 0" "ex_frame ''12''" 8 ?st "ex_frame ''12''" io_view_parquet_fails 8] h f
  show ?thesis by simp
qed

text \<open>
  The hypothesis on the snapshot is needed. When a run cannot write the parquet file
  of the view while an older one exists, the view goes to the pickle file, the older
  parquet file is what is read back, and the next run on the same view is compared
  with the older snapshot: it logs the same change a second time.
\<close>

lemma ex_stale_snapshot:
  "last_view_snapshot (roll_forward io_view_parquet_fails (\<lambda>s. 0) 7 (ex_frame ''12'') ex_store)
     = Some (ex_frame ''10'') \<and>
   CHANGE_LOG_FILE (roll_forward io_view_parquet_fails (\<lambda>s. 0) 8 (ex_frame ''12'')
       (roll_forward io_view_parquet_fails (\<lambda>s. 0) 7 (ex_frame ''12'') ex_store))
     = Some [ex_change 7, ex_change 8]"
proof -
  have 1: "roll_forward io_view_parquet_fails (\<lambda>s. 0) 7 (ex_frame ''12'') ex_store =
     \<lparr>LAST_VIEW_FILE = Some (ex_frame ''10''), LAST_VIEW_pkl = Some (ex_frame ''12''),
      CHANGE_LOG_FILE = Some [ex_change 7], CHANGE_LOG_pkl = None,
      last_view_snapshot = Some (ex_frame ''10''), change_history = [ex_change 7]\<rparr>"
    by (simp add: roll_forward_def Let_def ex_store_def ex_tracked ex_change_detected
        append_change_history_def load_change_history_def persist_view_snapshot_def
        load_last_view_snapshot_def io_ok_def io_view_parquet_fails_def)
  show ?thesis
    unfolding 1
    by (simp add: roll_forward_def Let_def ex_tracked ex_change_detected
        append_change_history_def load_change_history_def persist_view_snapshot_def
        load_last_view_snapshot_def io_ok_def io_view_parquet_fails_def ex_change_def)
qed

section \<open>Properties of the tabular PO ingestor\<close>


















section \<open>Properties of the document BOM extractor\<close>

lemma unique_entries_empty: "unique_entries []"
  by (simp add: unique_entries_def)

lemma unique_entries_update:
  assumes "unique_entries per_line" and "\<And>b. distinct (bk b)"
  shows "unique_entries (AList.update lno bk per_line)"
  using assms by (auto simp: unique_entries_def distinct_update update_conv')

lemma per_line_get_distinct:
  "unique_entries per_line \<Longrightarrow> distinct (per_line_get per_line lno b)"
  by (auto simp: unique_entries_def per_line_get_def empty_buckets_def split: option.splits)

lemma scan_line_unique:
  assumes "unique_entries (fst st)"
  shows "unique_entries (fst (scan_line st raw))"
proof -
  obtain per_line cur where st: "st = (per_line, cur)" by (cases st)
  have u: "unique_entries per_line" using assms st by simp
  have same: "\<And>lno. unique_entries (AList.update lno (per_line_get per_line lno) per_line)"
    by (rule unique_entries_update [OF u]) (rule per_line_get_distinct [OF u])
  have new: "\<And>lno b item. item \<notin> set (per_line_get per_line lno b) \<Longrightarrow>
      unique_entries (AList.update lno
        ((per_line_get per_line lno)(b := per_line_get per_line lno b @ [item])) per_line)"
    by (rule unique_entries_update [OF u]) (simp add: per_line_get_distinct [OF u])
  show ?thesis
    unfolding st scan_line_def Let_def
    using u same new by (auto split: option.splits)
qed

lemma foldl_scan_line_unique:
  "unique_entries (fst st) \<Longrightarrow> unique_entries (fst (foldl scan_line st raws))"
  by (induction raws arbitrary: st) (simp_all add: scan_line_unique)

lemma remdups_snoc: "remdups (ys @ [x]) = remdups (filter (\<lambda>y. y \<noteq> x) ys) @ [x]"
  by (induction ys) auto

lemma keep_first_Cons: "keep_first (x # xs) = x # keep_first (filter (\<lambda>y. y \<noteq> x) xs)"
  by (simp add: keep_first_def remdups_snoc rev_filter)

lemma keep_first_Nil: "keep_first [] = []"
  by (simp add: keep_first_def)

lemma add_new_keep_first:
  "add_new acc xs = acc @ keep_first (filter (\<lambda>x. x \<notin> set acc) xs)"
proof (induction xs arbitrary: acc)
  case Nil
  then show ?case by (simp add: keep_first_Nil)
next
  case (Cons x xs)
  show ?case
  proof (cases "x \<in> set acc")
    case True
    then show ?thesis by (simp add: Cons.IH)
  next
    case False
    have "filter (\<lambda>y. y \<notin> set (acc @ [x])) xs = filter (\<lambda>y. y \<noteq> x) (filter (\<lambda>y. y \<notin> set acc) xs)"
      by (induction xs) auto
    then show ?thesis using False by (simp add: Cons.IH keep_first_Cons)
  qed
qed

lemma shared_items_keep_first:
  "shared_items per_line b = keep_first (concat (map (\<lambda>(lno, bk). bk b) per_line))"
  by (simp add: shared_items_def add_new_keep_first)

lemma distinct_shared_items: "distinct (shared_items per_line b)"
  by (simp add: shared_items_keep_first keep_first_def)

lemma fallback_keys: "map fst (fallback per_line) = map fst per_line"
  by (auto simp: fallback_def split_beta)

lemma fallback_member:
  assumes "(lno, bk) \<in> set (fallback per_line)"
  shows "\<exists>bk0. (lno, bk0) \<in> set per_line \<and>
           (\<forall>b. bk b = (if 1 < length per_line \<and> bk0 b = [] then shared_items per_line b
                        else bk0 b))"
proof (cases "1 < length per_line")
  case True
  with assms obtain bk0 where "(lno, bk0) \<in> set per_line"
    and "bk = (\<lambda>b. if bk0 b = [] then shared_items per_line b else bk0 b)"
    by (auto simp: fallback_def)
  with True show ?thesis by auto
next
  case False
  with assms show ?thesis by (auto simp: fallback_def)
qed

lemma scan_result_unique:
  "unique_entries (fst (foldl scan_line ([], None) raws))"
  by (rule foldl_scan_line_unique) (simp add: unique_entries_empty)


lemma ex_pdf_lid:
  "per_line_get (parse_po_pdf_by_line ex_pdf) ''1'' LID =
     [(''1234567'', Some 1), (''1234567'', Some 2)]"
  by code_simp

lemma ex_pdf_shared_keys: "map fst (parse_po_pdf_by_line ex_pdf_shared) = [''1'', ''2'', ''3'']"
  by code_simp

lemma ex_pdf_shared_lid:
  "map (\<lambda>(lno, bk). bk LID) (parse_po_pdf_by_line ex_pdf_shared) =
     [[(''1234567'', Some 1)], [(''1234567'', Some 1), (''1234567'', Some 3)],
      [(''1234567'', Some 3)]]"
  by code_simp

text \<open>
  C8 (amended). After extraction the line numbers are pairwise different and, for
  every line and category, the entry list contains no duplicate pair of article code
  and quantity per assembly, also after the fallback for shared orders. The fallback
  leaves a list that has entries as it is; when the document has several lines it
  replaces an empty list by the entries of that category on all lines, each pair once,
  in the order in which they were found. (An article code found with two quantities
  stays in the list twice.)
\<close>

theorem bom_entries_unique:
  "distinct (map fst (parse_po_pdf_by_line pages)) \<and>
   ((lno, bk) \<in> set (parse_po_pdf_by_line pages) \<longrightarrow> distinct (bk b)) \<and>
   shared_items per_line b = keep_first (concat (map (\<lambda>(l, k). k b) per_line)) \<and>
   ((lno', bk') \<in> set (fallback per_line) \<longrightarrow>
      (\<exists>bk0. (lno', bk0) \<in> set per_line \<and>
         (\<forall>c. bk' c = (if 1 < length per_line \<and> bk0 c = [] then shared_items per_line c
                        else bk0 c))))"
proof (intro conjI impI)
  let ?p = "fst (foldl scan_line ([], None) (concat pages))"
  have u: "unique_entries ?p" by (rule scan_result_unique)
  then show "distinct (map fst (parse_po_pdf_by_line pages))"
    by (simp add: parse_po_pdf_by_line_def fallback_keys unique_entries_def)
  show "distinct (bk b)" if "(lno, bk) \<in> set (parse_po_pdf_by_line pages)"
  proof -
    from that fallback_member obtain bk0 where m: "(lno, bk0) \<in> set ?p"
      and eq: "bk b = (if 1 < length ?p \<and> bk0 b = [] then shared_items ?p b else bk0 b)"
      unfolding parse_po_pdf_by_line_def by blast
    from u m have "map_of ?p lno = Some bk0" by (simp add: unique_entries_def)
    with u have "distinct (bk0 b)" unfolding unique_entries_def by blast
    then show ?thesis using eq by (simp add: distinct_shared_items)
  qed
  show "shared_items per_line b = keep_first (concat (map (\<lambda>(l, k). k b) per_line))"
    by (rule shared_items_keep_first)
  show "\<exists>bk0. (lno', bk0) \<in> set per_line \<and>
         (\<forall>c. bk' c = (if 1 < length per_line \<and> bk0 c = [] then shared_items per_line c
                        else bk0 c))"
    if "(lno', bk') \<in> set (fallback per_line)"
    using that by (rule fallback_member)
qed

theorem bom_entries_unique_witness:
  "(''2'', snd (parse_po_pdf_by_line ex_pdf_shared ! 1))
     \<in> set (parse_po_pdf_by_line ex_pdf_shared) \<and>
   distinct (snd (parse_po_pdf_by_line ex_pdf_shared ! 1) LID) \<and>
   snd (parse_po_pdf_by_line ex_pdf_shared ! 1) LID
     = [(''1234567'', Some 1), (''1234567'', Some 3)]"
proof -
  let ?r = "parse_po_pdf_by_line ex_pdf_shared"
  have len: "length ?r = 3"
    using ex_pdf_shared_keys by (metis length_map length_Cons list.size(3) numeral_3_eq_3)
  have "map fst ?r ! 1 = ''2''" by (simp add: ex_pdf_shared_keys)
  then have k: "fst (?r ! 1) = ''2''" using len by (simp add: nth_map)
  have "?r ! 1 \<in> set ?r" using len by simp
  then have m: "(''2'', snd (?r ! 1)) \<in> set ?r" using k by (metis prod.collapse)
  have "map (\<lambda>(lno, bk). bk LID) ?r ! 1 = [(''1234567'', Some 1), (''1234567'', Some 3)]"
    by (simp add: ex_pdf_shared_lid)
  then have v: "snd (?r ! 1) LID = [(''1234567'', Some 1), (''1234567'', Some 3)]"
    using len by (simp add: nth_map split_beta)
  from bom_entries_unique [of ex_pdf_shared "''2''" "snd (?r ! 1)" LID] m
  have "distinct (snd (?r ! 1) LID)" by blast
  then show ?thesis using m v by simp
qed

theorem bom_duplicate_article_counterexample:
  "per_line_get (parse_po_pdf_by_line ex_pdf) ''1'' LID =
     [(''1234567'', Some 1), (''1234567'', Some 2)] \<and>
   \<not> distinct (map fst (per_line_get (parse_po_pdf_by_line ex_pdf) ''1'' LID))"
  by (simp add: ex_pdf_lid)



end
